theory Spec2Isabelle
  imports Main
begin

section \<open>The IAM group membership resource\<close>

text \<open>
  A shallow embedding of \<^verbatim>\<open>aws/resource_aws_iam_group_membership.go\<close>: the five
  handlers of the resource (Create, Read, Update, Delete, Import) and the two loops
  \<^verbatim>\<open>addUsersToGroup\<close> and \<^verbatim>\<open>removeUsersFromGroup\<close>.

  The IAM client is a parameter: a record of the three API operations the file calls,
  each a function on an arbitrary state \<open>'w\<close> of the identity service. Every call is
  appended to a log together with the error it returned, so that statements about which
  calls a handler issues, and in which order, are statements about that log.
  A nil pointer dereference is the outcome \<open>Panic\<close>; the listing loop of Read has no
  bound in the source and is a partial function into \<open>option\<close>, where \<open>None\<close> is
  "does not return".
\<close>

subsection \<open>Errors\<close>

text \<open>
  A Go \<^verbatim>\<open>error\<close> value. \<open>AwsError code message\<close> is a value that satisfies
  \<^verbatim>\<open>err.(awserr.Error)\<close>; \<open>OtherError message\<close> is any other error.
\<close>

datatype error = AwsError string string | OtherError string

text \<open>\<^verbatim>\<open>awsErr, ok := err.(awserr.Error); ok && awsErr.Code() == code\<close>\<close>

fun has_code :: "error \<Rightarrow> string \<Rightarrow> bool" where
  "has_code (AwsError c m) code = (c = code)"
| "has_code (OtherError m) code = False"

text \<open>\<^verbatim>\<open>err.Error()\<close>, as \<^verbatim>\<open>%s\<close> prints an error.\<close>

fun Error :: "error \<Rightarrow> string" where
  "Error (AwsError c m) = c @ '': '' @ m"
| "Error (OtherError m) = m"

text \<open>What a handler does: it returns an error value (nil is \<open>None\<close>) or panics.\<close>

datatype outcome = Return "error option" | Panic

subsection \<open>The IAM client\<close>

text \<open>
  \<^verbatim>\<open>iam.User\<close> with its \<^verbatim>\<open>UserName *string\<close>, and \<^verbatim>\<open>iam.GetGroupOutput\<close> with
  \<^verbatim>\<open>Users []*User\<close>, \<^verbatim>\<open>IsTruncated *bool\<close> and \<^verbatim>\<open>Marker *string\<close>. A nil pointer
  is \<open>None\<close>.
\<close>

datatype User = User (UserName: "string option")

record GetGroupOutput =
  Users :: "User option list"
  IsTruncated :: "bool option"
  Marker :: "string option"

text \<open>
  The calls the file issues: \<open>GetGroupCall group marker\<close>,
  \<open>AddUserToGroupCall user group\<close>, \<open>RemoveUserFromGroupCall user group\<close>.
  An event is a call with the error it returned (\<open>None\<close> when it succeeded).
\<close>

datatype api_call =
    GetGroupCall string "string option"
  | AddUserToGroupCall string string
  | RemoveUserFromGroupCall string string

datatype event = Event (call: api_call) (failure: "error option")

record 'w IAM =
  GetGroup :: "string \<Rightarrow> string option \<Rightarrow> 'w \<Rightarrow> (error + GetGroupOutput) \<times> 'w"
  AddUserToGroup :: "string \<Rightarrow> string \<Rightarrow> 'w \<Rightarrow> error option \<times> 'w"
  RemoveUserFromGroup :: "string \<Rightarrow> string \<Rightarrow> 'w \<Rightarrow> error option \<times> 'w"

text \<open>The state of the identity service and the log of the calls made so far.\<close>

datatype 'w env = Env (world: 'w) (events: "event list")

definition call_GetGroup ::
  "'w IAM \<Rightarrow> string \<Rightarrow> string option \<Rightarrow> 'w env \<Rightarrow> (error + GetGroupOutput) \<times> 'w env" where
  "call_GetGroup conn g marker s =
     (let r = GetGroup conn g marker (world s) in
      (fst r, Env (snd r)
               (events s @ [Event (GetGroupCall g marker)
                              (case fst r of Inl err \<Rightarrow> Some err | Inr resp \<Rightarrow> None)])))"

definition call_AddUserToGroup ::
  "'w IAM \<Rightarrow> string \<Rightarrow> string \<Rightarrow> 'w env \<Rightarrow> error option \<times> 'w env" where
  "call_AddUserToGroup conn u g s =
     (let r = AddUserToGroup conn u g (world s) in
      (fst r, Env (snd r) (events s @ [Event (AddUserToGroupCall u g) (fst r)])))"

definition call_RemoveUserFromGroup ::
  "'w IAM \<Rightarrow> string \<Rightarrow> string \<Rightarrow> 'w env \<Rightarrow> error option \<times> 'w env" where
  "call_RemoveUserFromGroup conn u g s =
     (let r = RemoveUserFromGroup conn u g (world s) in
      (fst r, Env (snd r) (events s @ [Event (RemoveUserFromGroupCall u g) (fst r)])))"

subsection \<open>The resource record\<close>

text \<open>
  \<^verbatim>\<open>schema.ResourceData\<close> for the schema of lines 24-43: the identity and the three
  fields. A set of strings is represented by its enumeration \<^verbatim>\<open>Set.List()\<close>, a list
  without repetitions; the SDK enumerates a set in the order of the hash keys of its
  elements (for \<^verbatim>\<open>schema.HashString\<close> the decimal CRC-32 of the string, compared as a
  string), so that a set has one enumeration: carol, zed, bob, ghost, alice, oscar are in
  that order. \<open>None\<close> is a field with no value. \<open>d_users_prior\<close> is the value of \<open>users\<close> in the
  prior state (the old value of \<^verbatim>\<open>GetChange\<close>) and \<open>d_users\<close> the value
  \<^verbatim>\<open>d.Get\<close> reads (the new value of \<^verbatim>\<open>GetChange\<close>, and what \<^verbatim>\<open>d.Set\<close> writes).
\<close>

record ResourceData =
  d_Id :: string
  d_name :: string
  d_group :: string
  d_users_prior :: "string list option"
  d_users :: "string list option"

text \<open>\<^verbatim>\<open>d.Get("users").(*schema.Set).List()\<close>: a field with no value reads as the empty set.\<close>

definition Get_users :: "ResourceData \<Rightarrow> string list" where
  "Get_users d = (case d_users d of None \<Rightarrow> [] | Some xs \<Rightarrow> xs)"

text \<open>\<^verbatim>\<open>d.GetChange("users")\<close>: the old and the new value, nil when there is none.\<close>

definition GetChange_users :: "ResourceData \<Rightarrow> string list option \<times> string list option" where
  "GetChange_users d = (d_users_prior d, d_users d)"

text \<open>
  \<^verbatim>\<open>d.HasChange("users")\<close>: the two values of \<^verbatim>\<open>GetChange\<close> compared with
  \<^verbatim>\<open>Set.Equal\<close>, that is as sets; a nil value equals only nil.
\<close>

definition HasChange_users :: "ResourceData \<Rightarrow> bool" where
  "HasChange_users d =
     (case GetChange_users d of
        (None, None) \<Rightarrow> False
      | (Some os, Some ns) \<Rightarrow> set os \<noteq> set ns
      | (None, Some ns) \<Rightarrow> True
      | (Some os, None) \<Rightarrow> True)"

text \<open>\<^verbatim>\<open>os.Difference(ns).List()\<close>: the elements of \<open>os\<close> that are not in \<open>ns\<close>.\<close>

definition Difference :: "string list \<Rightarrow> string list \<Rightarrow> string list" where
  "Difference s other = filter (\<lambda>v. v \<notin> set other) s"

text \<open>
  Modelled from the spec: \<^verbatim>\<open>expandStringList\<close> is a helper of the repository that is
  defined in another file. The spec has the handlers pass "every member" of the set to
  the per-user calls, so it is the element-for-element conversion of
  \<^verbatim>\<open>[]interface{}\<close> to \<^verbatim>\<open>[]*string\<close>.
\<close>

definition expandStringList :: "string list \<Rightarrow> string list" where
  "expandStringList configured = configured"

text \<open>
  \<^verbatim>\<open>d.Set("users", ul)\<close>: the list becomes a set (duplicates collapse). Writing a list
  of strings to a field that is a set of strings has no failing case. The members
  written are kept in the order of \<open>ul\<close> and are to be read as a set.
\<close>

definition Set_users :: "ResourceData \<Rightarrow> string list \<Rightarrow> error + ResourceData" where
  "Set_users d ul = Inr (d\<lparr>d_users := Some (remdups ul)\<rparr>)"

subsection \<open>The two per-user loops (lines 142-171)\<close>

fun removeUsersFromGroup ::
  "'w IAM \<Rightarrow> string list \<Rightarrow> string \<Rightarrow> 'w env \<Rightarrow> error option \<times> 'w env" where
  "removeUsersFromGroup conn [] g s = (None, s)"
| "removeUsersFromGroup conn (u # us) g s =
     (let r = call_RemoveUserFromGroup conn u g s in
      case fst r of
        Some err \<Rightarrow> if has_code err ''NoSuchEntity'' then (None, snd r) else (Some err, snd r)
      | None \<Rightarrow> removeUsersFromGroup conn us g (snd r))"

fun addUsersToGroup ::
  "'w IAM \<Rightarrow> string list \<Rightarrow> string \<Rightarrow> 'w env \<Rightarrow> error option \<times> 'w env" where
  "addUsersToGroup conn [] g s = (None, s)"
| "addUsersToGroup conn (u # us) g s =
     (let r = call_AddUserToGroup conn u g s in
      case fst r of
        Some err \<Rightarrow> (Some err, snd r)
      | None \<Rightarrow> addUsersToGroup conn us g (snd r))"

subsection \<open>Read (lines 61-100)\<close>

text \<open>
  The inner loop \<^verbatim>\<open>for _, u := range resp.Users { ul = append(ul, *u.UserName) }\<close>:
  \<open>None\<close> when a user entry or its name is nil, which panics.
\<close>

fun append_UserNames :: "string list \<Rightarrow> User option list \<Rightarrow> string list option" where
  "append_UserNames ul [] = Some ul"
| "append_UserNames ul (None # us) = None"
| "append_UserNames ul (Some (User None) # us) = None"
| "append_UserNames ul (Some (User (Some n)) # us) = append_UserNames (ul @ [n]) us"

text \<open>Lines 95-99, after the loop.\<close>

definition set_user_list :: "ResourceData \<Rightarrow> string \<Rightarrow> string list \<Rightarrow> outcome \<times> ResourceData" where
  "set_user_list d g ul =
     (case Set_users d ul of
        Inl err \<Rightarrow>
          (Return (Some (OtherError
             (''Error setting user list from IAM Group Membership ('' @ g @ ''), error: ''
                @ Error err))), d)
      | Inr d' \<Rightarrow> (Return None, d'))"

text \<open>The loop of lines 67-93, with \<open>ul\<close> and \<open>marker\<close> its two variables.\<close>

partial_function (option) Read_loop ::
  "'w IAM \<Rightarrow> ResourceData \<Rightarrow> string \<Rightarrow> string list \<Rightarrow> string option \<Rightarrow> 'w env
     \<Rightarrow> (outcome \<times> ResourceData \<times> 'w env) option" where
  "Read_loop conn d g ul marker s =
     (let r = call_GetGroup conn g marker s in
      case fst r of
        Inl err \<Rightarrow>
          if has_code err ''NoSuchEntity''
          then Some (Return None, d\<lparr>d_Id := []\<rparr>, snd r)
          else Some (Return (Some err), d, snd r)
      | Inr resp \<Rightarrow>
          (case append_UserNames ul (Users resp) of
             None \<Rightarrow> Some (Panic, d, snd r)
           | Some ul' \<Rightarrow>
               (case IsTruncated resp of
                  None \<Rightarrow> Some (Panic, d, snd r)
                | Some truncated \<Rightarrow>
                    if \<not> truncated
                    then Some (fst (set_user_list d g ul'), snd (set_user_list d g ul'), snd r)
                    else Read_loop conn d g ul' (Marker resp) (snd r))))"

definition resourceAwsIamGroupMembershipRead ::
  "'w IAM \<Rightarrow> ResourceData \<Rightarrow> 'w env \<Rightarrow> (outcome \<times> ResourceData \<times> 'w env) option" where
  "resourceAwsIamGroupMembershipRead conn d s = Read_loop conn d (d_group d) [] None s"

subsection \<open>Create, Update, Delete, Import\<close>

definition resourceAwsIamGroupMembershipCreate ::
  "'w IAM \<Rightarrow> ResourceData \<Rightarrow> 'w env \<Rightarrow> (outcome \<times> ResourceData \<times> 'w env) option" where
  "resourceAwsIamGroupMembershipCreate conn d s =
     (let g = d_group d;
          userList = expandStringList (Get_users d);
          r = addUsersToGroup conn userList g s
      in case fst r of
           Some err \<Rightarrow> Some (Return (Some err), d, snd r)
         | None \<Rightarrow> resourceAwsIamGroupMembershipRead conn (d\<lparr>d_Id := d_name d\<rparr>) (snd r))"

text \<open>\<^verbatim>\<open>if o == nil { o = new(schema.Set) }\<close>: a nil value becomes the empty set.\<close>

definition nil_to_empty :: "string list option \<Rightarrow> string list" where
  "nil_to_empty v = (case v of None \<Rightarrow> [] | Some xs \<Rightarrow> xs)"

definition resourceAwsIamGroupMembershipUpdate ::
  "'w IAM \<Rightarrow> ResourceData \<Rightarrow> 'w env \<Rightarrow> (outcome \<times> ResourceData \<times> 'w env) option" where
  "resourceAwsIamGroupMembershipUpdate conn d s =
     (if HasChange_users d then
        (let g = d_group d;
             os = nil_to_empty (fst (GetChange_users d));
             ns = nil_to_empty (snd (GetChange_users d));
             remove = expandStringList (Difference os ns);
             add = expandStringList (Difference ns os);
             r = removeUsersFromGroup conn remove g s
         in case fst r of
              Some err \<Rightarrow> Some (Return (Some err), d, snd r)
            | None \<Rightarrow>
                (let r' = addUsersToGroup conn add g (snd r)
                 in case fst r' of
                      Some err \<Rightarrow> Some (Return (Some err), d, snd r')
                    | None \<Rightarrow> resourceAwsIamGroupMembershipRead conn d (snd r')))
      else resourceAwsIamGroupMembershipRead conn d s)"

definition resourceAwsIamGroupMembershipDelete ::
  "'w IAM \<Rightarrow> ResourceData \<Rightarrow> 'w env \<Rightarrow> error option \<times> 'w env" where
  "resourceAwsIamGroupMembershipDelete conn d s =
     (let userList = expandStringList (Get_users d);
          g = d_group d
      in removeUsersFromGroup conn userList g s)"

text \<open>
  \<^verbatim>\<open>resource.UniqueId()\<close> of the plugin SDK: the prefix \<^verbatim>\<open>terraform-\<close> followed by a
  suffix made of the time and a counter, which is an input here.
\<close>

definition UniqueId :: "string \<Rightarrow> string" where
  "UniqueId suffix = ''terraform-'' @ suffix"

text \<open>\<^verbatim>\<open>%q\<close> of a string without characters to escape: the string in double quotes.\<close>

definition quoted :: "string \<Rightarrow> string" where
  "quoted x = [CHR 0x22] @ x @ [CHR 0x22]"

definition resourceAwsIamGroupMembershipImport ::
  "ResourceData \<Rightarrow> string \<Rightarrow> error + ResourceData list" where
  "resourceAwsIamGroupMembershipImport d suffix =
     (let groupName = d_Id d in
      if length groupName = 0
      then Inl (OtherError (''unexpected format of ID ('' @ quoted (d_Id d)
                              @ ''), expected <group-name>''))
      else Inr [d\<lparr>d_group := groupName, d_Id := UniqueId suffix\<rparr>])"

section \<open>The environment of a run\<close>

text \<open>
  What the identity service answers is described by the calls it accepts.
  \<open>page_names p\<close> are the user names of a listing page (\<open>None\<close> when an entry or its
  name is nil), and a page is well formed when its truncation flag and all its names are
  present.
\<close>

definition page_names :: "GetGroupOutput \<Rightarrow> string list option" where
  "page_names p = append_UserNames [] (Users p)"

definition well_formed :: "GetGroupOutput \<Rightarrow> bool" where
  "well_formed p = (IsTruncated p \<noteq> None \<and> page_names p \<noteq> None)"

text \<open>
  \<open>serves conn g m w ps w'\<close>: from state \<open>w\<close>, the service answers the listing of group
  \<open>g\<close> asked with marker \<open>m\<close> with the first page of \<open>ps\<close>, the listing asked with that
  page's marker with the second, and so on, and is left in state \<open>w'\<close>.
\<close>

fun serves ::
  "'w IAM \<Rightarrow> string \<Rightarrow> string option \<Rightarrow> 'w \<Rightarrow> GetGroupOutput list \<Rightarrow> 'w \<Rightarrow> bool" where
  "serves conn g m w [] w' = (w' = w)"
| "serves conn g m w (p # ps) w' =
     (fst (GetGroup conn g m w) = Inr p \<and>
      serves conn g (Marker p) (snd (GetGroup conn g m w)) ps w')"

text \<open>
  \<open>accepts f g w us w'\<close>: from state \<open>w\<close>, the per-user operation \<open>f\<close> (adding to or
  removing from group \<open>g\<close>) succeeds for each user of \<open>us\<close> in turn and leaves the
  service in state \<open>w'\<close>.
\<close>

fun accepts ::
  "(string \<Rightarrow> string \<Rightarrow> 'w \<Rightarrow> error option \<times> 'w) \<Rightarrow> string \<Rightarrow> 'w \<Rightarrow> string list \<Rightarrow> 'w \<Rightarrow> bool" where
  "accepts f g w [] w' = (w' = w)"
| "accepts f g w (u # us) w' = (fst (f u g w) = None \<and> accepts f g (snd (f u g w)) us w')"

text \<open>The log entries of successful calls.\<close>

definition get_event :: "string \<Rightarrow> string option \<Rightarrow> event" where
  "get_event g = (\<lambda>m. Event (GetGroupCall g m) None)"

definition add_event :: "string \<Rightarrow> string \<Rightarrow> event" where
  "add_event g = (\<lambda>u. Event (AddUserToGroupCall u g) None)"

definition remove_event :: "string \<Rightarrow> string \<Rightarrow> event" where
  "remove_event g = (\<lambda>u. Event (RemoveUserFromGroupCall u g) None)"

fun is_GetGroup :: "event \<Rightarrow> bool" where
  "is_GetGroup (Event (GetGroupCall g m) r) = True"
| "is_GetGroup (Event c r) = False"

definition failure_of :: "error + GetGroupOutput \<Rightarrow> error option" where
  "failure_of r = (case r of Inl err \<Rightarrow> Some err | Inr resp \<Rightarrow> None)"

text \<open>
  What one iteration of the loop of Read does with the response \<open>r\<close> when it leaves the
  loop: the outcome and the record. \<open>None\<close> when the iteration goes round again.
\<close>

definition Read_final ::
  "ResourceData \<Rightarrow> string \<Rightarrow> string list \<Rightarrow> error + GetGroupOutput
     \<Rightarrow> (outcome \<times> ResourceData) option" where
  "Read_final d g ul r =
     (case r of
        Inl err \<Rightarrow>
          if has_code err ''NoSuchEntity'' then Some (Return None, d\<lparr>d_Id := []\<rparr>)
          else Some (Return (Some err), d)
      | Inr resp \<Rightarrow>
          (case append_UserNames ul (Users resp) of
             None \<Rightarrow> Some (Panic, d)
           | Some ul' \<Rightarrow>
               (case IsTruncated resp of
                  None \<Rightarrow> Some (Panic, d)
                | Some truncated \<Rightarrow> if truncated then None else Some (set_user_list d g ul'))))"

text \<open>
  A returning run of the loop of Read: some truncated, well-formed pages \<open>ps\<close>, each asked
  for with the marker of the one before, and then one more response that ends the loop.
\<close>

definition Read_run ::
  "'w IAM \<Rightarrow> ResourceData \<Rightarrow> string \<Rightarrow> string list \<Rightarrow> string option \<Rightarrow> 'w env
     \<Rightarrow> outcome \<times> ResourceData \<times> 'w env \<Rightarrow> bool" where
  "Read_run conn d g ul m s y =
     (\<exists>ps nss w1.
        serves conn g m (world s) ps w1 \<and>
        list_all (\<lambda>q. IsTruncated q = Some True) ps \<and>
        map page_names ps = map Some nss \<and>
        Read_final d g (ul @ concat nss) (fst (GetGroup conn g (last (m # map Marker ps)) w1))
          = Some (fst y, fst (snd y)) \<and>
        snd (snd y) =
          Env (snd (GetGroup conn g (last (m # map Marker ps)) w1))
            (events s @ map (get_event g) (butlast (m # map Marker ps))
               @ [Event (GetGroupCall g (last (m # map Marker ps)))
                    (failure_of (fst (GetGroup conn g (last (m # map Marker ps)) w1)))]))"



text \<open>The users Update removes and adds (lines 116-119).\<close>

definition to_remove :: "ResourceData \<Rightarrow> string list" where
  "to_remove d =
     expandStringList (Difference (nil_to_empty (d_users_prior d)) (nil_to_empty (d_users d)))"

definition to_add :: "ResourceData \<Rightarrow> string list" where
  "to_add d =
     expandStringList (Difference (nil_to_empty (d_users d)) (nil_to_empty (d_users_prior d)))"

section \<open>A model of the identity service\<close>

text \<open>
  A small identity service to run the handlers against: the accounts that exist, the
  members of each group, and the names (of groups and users) the caller may not touch.
  A listing returns \<open>k\<close> members per page; the marker of a page encodes the offset of the
  next one. A call on an unknown group or user is answered \<^verbatim>\<open>NoSuchEntity\<close>.
\<close>

datatype iam_state =
  IamState (accounts: "string list") (groups: "(string \<times> string list) list")
    (denied: "string list")

definition no_such_entity :: error where
  "no_such_entity = AwsError ''NoSuchEntity'' ''The entity cannot be found.''"

definition access_denied :: error where
  "access_denied = AwsError ''AccessDenied'' ''Not authorized to perform this action.''"

definition update_members ::
  "string \<Rightarrow> (string list \<Rightarrow> string list) \<Rightarrow> (string \<times> string list) list
     \<Rightarrow> (string \<times> string list) list" where
  "update_members g f gs = map (\<lambda>gm. if fst gm = g then (fst gm, f (snd gm)) else gm) gs"

definition listed :: "string list \<Rightarrow> User option list" where
  "listed ns = map (\<lambda>n. Some (User (Some n))) ns"

definition sim_GetGroup ::
  "nat \<Rightarrow> string \<Rightarrow> string option \<Rightarrow> iam_state \<Rightarrow> (error + GetGroupOutput) \<times> iam_state" where
  "sim_GetGroup k g marker w =
     (if g \<in> set (denied w) then (Inl access_denied, w)
      else case map_of (groups w) g of
        None \<Rightarrow> (Inl no_such_entity, w)
      | Some ms \<Rightarrow>
          (let off = (case marker of None \<Rightarrow> 0 | Some m \<Rightarrow> length m);
               more = off + k < length ms
           in (Inr \<lparr>Users = listed (take k (drop off ms)),
                     IsTruncated = Some more,
                     Marker = (if more then Some (replicate (off + k) (CHR ''i'')) else None)\<rparr>,
               w)))"

definition sim_AddUserToGroup :: "string \<Rightarrow> string \<Rightarrow> iam_state \<Rightarrow> error option \<times> iam_state" where
  "sim_AddUserToGroup u g w =
     (if u \<in> set (denied w) then (Some access_denied, w)
      else if u \<in> set (accounts w) \<and> map_of (groups w) g \<noteq> None
      then (None, IamState (accounts w)
                    (update_members g (\<lambda>ms. if u \<in> set ms then ms else ms @ [u]) (groups w))
                    (denied w))
      else (Some no_such_entity, w))"

definition sim_RemoveUserFromGroup ::
  "string \<Rightarrow> string \<Rightarrow> iam_state \<Rightarrow> error option \<times> iam_state" where
  "sim_RemoveUserFromGroup u g w =
     (if u \<in> set (denied w) then (Some access_denied, w)
      else if u \<in> set (accounts w) \<and> map_of (groups w) g \<noteq> None
      then (None, IamState (accounts w)
                    (update_members g (filter (\<lambda>x. x \<noteq> u)) (groups w))
                    (denied w))
      else (Some no_such_entity, w))"

definition sim :: "nat \<Rightarrow> iam_state IAM" where
  "sim k = \<lparr>GetGroup = sim_GetGroup k,
            AddUserToGroup = sim_AddUserToGroup,
            RemoveUserFromGroup = sim_RemoveUserFromGroup\<rparr>"

text \<open>The members of a group in a state of the model.\<close>

definition sim_members :: "string \<Rightarrow> iam_state \<Rightarrow> string set" where
  "sim_members g w = (case map_of (groups w) g of None \<Rightarrow> {} | Some ms \<Rightarrow> set ms)"

text \<open>A record of the group \<open>devs\<close> with the given prior and current members.\<close>

definition membership :: "string list option \<Rightarrow> string list option \<Rightarrow> ResourceData" where
  "membership prior current =
     \<lparr>d_Id = ''team'', d_name = ''team'', d_group = ''devs'',
      d_users_prior = prior, d_users = current\<rparr>"

text \<open>A client whose listing holds a user entry without a name.\<close>

definition nameless :: "unit IAM" where
  "nameless = \<lparr>GetGroup = (\<lambda>g m w. (Inr \<lparr>Users = [Some (User None)], IsTruncated = Some False,
                                           Marker = None\<rparr>, w)),
               AddUserToGroup = (\<lambda>u g w. (None, w)),
               RemoveUserFromGroup = (\<lambda>u g w. (None, w))\<rparr>"

section \<open>Lemmas about the loops\<close>

lemmas sim_defs = sim_def sim_GetGroup_def sim_AddUserToGroup_def sim_RemoveUserFromGroup_def
  update_members_def listed_def no_such_entity_def access_denied_def

lemma append_UserNames_acc:
  "append_UserNames ul us = map_option (\<lambda>ns. ul @ ns) (append_UserNames [] us)"
proof (induction us arbitrary: ul)
  case Nil
  show ?case by simp
next
  case (Cons u us)
  show ?case
  proof (cases u)
    case None
    then show ?thesis by simp
  next
    case (Some v)
    show ?thesis
    proof (cases v)
      case (User n)
      show ?thesis
      proof (cases n)
        case None
        with Some User show ?thesis by simp
      next
        case (Some a)
        have "append_UserNames (ul @ [a]) us = map_option (\<lambda>ns. (ul @ [a]) @ ns) (append_UserNames [] us)"
          by (rule Cons.IH)
        moreover have "append_UserNames [a] us = map_option (\<lambda>ns. [a] @ ns) (append_UserNames [] us)"
          using Cons.IH [of "[a]"] by simp
        ultimately show ?thesis using \<open>u = Some v\<close> User Some
          by (simp add: option.map_comp comp_def)
      qed
    qed
  qed
qed

lemma Read_loop_pages:
  "serves conn g m (world s) ps w1 \<Longrightarrow> list_all (\<lambda>q. IsTruncated q = Some True) ps \<Longrightarrow>
   map page_names ps = map Some nss \<Longrightarrow>
   Read_loop conn d g ul m s =
   Read_loop conn d g (ul @ concat nss) (last (m # map Marker ps))
     (Env w1 (events s @ map (get_event g) (butlast (m # map Marker ps))))"
proof (induction ps arbitrary: m s ul nss)
  case Nil
  then show ?case by simp
next
  case (Cons p ps)
  from Cons.prems(3) obtain ns nss' where nss: "nss = ns # nss'" and ns: "page_names p = Some ns"
    and rest: "map page_names ps = map Some nss'"
    by (cases nss) auto
  let ?s1 = "Env (snd (GetGroup conn g m (world s))) (events s @ [get_event g m])"
  have call: "call_GetGroup conn g m s = (Inr p, ?s1)"
    using Cons.prems(1) by (simp add: call_GetGroup_def Let_def get_event_def)
  have names: "append_UserNames ul (Users p) = Some (ul @ ns)"
    using ns by (simp add: page_names_def append_UserNames_acc [of ul])
  have step: "Read_loop conn d g ul m s = Read_loop conn d g (ul @ ns) (Marker p) ?s1"
    using Cons.prems(2) by (subst Read_loop.simps) (simp add: call names)
  have "Read_loop conn d g (ul @ ns) (Marker p) ?s1 =
        Read_loop conn d g ((ul @ ns) @ concat nss') (last (Marker p # map Marker ps))
          (Env w1 (events ?s1 @ map (get_event g) (butlast (Marker p # map Marker ps))))"
    using Cons.prems(1,2) rest by (intro Cons.IH) simp_all
  with step show ?case by (simp add: nss)
qed

lemma Read_body_eq:
  "(let r = call_GetGroup conn g m s in
      case fst r of
        Inl err \<Rightarrow>
          if has_code err ''NoSuchEntity''
          then Some (Return None, d\<lparr>d_Id := []\<rparr>, snd r)
          else Some (Return (Some err), d, snd r)
      | Inr resp \<Rightarrow>
          (case append_UserNames ul (Users resp) of
             None \<Rightarrow> Some (Panic, d, snd r)
           | Some ul' \<Rightarrow>
               (case IsTruncated resp of
                  None \<Rightarrow> Some (Panic, d, snd r)
                | Some truncated \<Rightarrow>
                    if \<not> truncated
                    then Some (fst (set_user_list d g ul'), snd (set_user_list d g ul'), snd r)
                    else F conn d g ul' (Marker resp) (snd r)))) =
     (case Read_final d g ul (fst (GetGroup conn g m (world s))) of
        Some y \<Rightarrow> Some (fst y, snd y, snd (call_GetGroup conn g m s))
      | None \<Rightarrow>
          (case fst (GetGroup conn g m (world s)) of
             Inr resp \<Rightarrow> F conn d g (the (append_UserNames ul (Users resp))) (Marker resp)
                          (snd (call_GetGroup conn g m s))
           | Inl err \<Rightarrow> None))"
  by (simp add: Read_final_def call_GetGroup_def Let_def split: sum.splits option.splits)

lemma Read_loop_step:
  "Read_loop conn d g ul m s =
     (case Read_final d g ul (fst (GetGroup conn g m (world s))) of
        Some y \<Rightarrow> Some (fst y, snd y, snd (call_GetGroup conn g m s))
      | None \<Rightarrow>
          (case fst (GetGroup conn g m (world s)) of
             Inr resp \<Rightarrow> Read_loop conn d g (the (append_UserNames ul (Users resp))) (Marker resp)
                          (snd (call_GetGroup conn g m s))
           | Inl err \<Rightarrow> None))"
  by (subst Read_loop.simps) (rule Read_body_eq)

lemma Read_loop_final:
  assumes "Read_final d g ul (fst (GetGroup conn g m (world s))) = Some (out, d')"
  shows "Read_loop conn d g ul m s =
           Some (out, d', Env (snd (GetGroup conn g m (world s)))
                   (events s @ [Event (GetGroupCall g m) (failure_of (fst (GetGroup conn g m (world s))))]))"
  using assms by (subst Read_loop_step) (simp add: call_GetGroup_def Let_def failure_of_def)

lemma Read_run_final:
  assumes "Read_final d g ul (fst (GetGroup conn g m (world s))) = Some y"
  shows "Read_run conn d g ul m s (fst y, snd y, snd (call_GetGroup conn g m s))"
  unfolding Read_run_def
  apply (rule exI [of _ "[]"])
  apply (rule exI [of _ "[]"])
  apply (rule exI [of _ "world s"])
  using assms by (simp add: call_GetGroup_def Let_def failure_of_def)

lemma Read_final_None:
  assumes "Read_final d g ul r = None"
  shows "\<exists>p ns. r = Inr p \<and> IsTruncated p = Some True \<and> page_names p = Some ns \<and>
           append_UserNames ul (Users p) = Some (ul @ ns)"
proof (cases r)
  case (Inl e)
  with assms show ?thesis by (simp add: Read_final_def split: if_splits)
next
  case (Inr p)
  with assms obtain ul' where ul': "append_UserNames ul (Users p) = Some ul'"
    and tr: "IsTruncated p = Some True"
    by (auto simp: Read_final_def split: option.splits if_splits)
  from ul' obtain ns where "append_UserNames [] (Users p) = Some ns" and "ul' = ul @ ns"
    by (subst (asm) append_UserNames_acc) auto
  with Inr ul' tr show ?thesis by (simp add: page_names_def)
qed

lemma Read_run_step:
  assumes p: "fst (GetGroup conn g m (world s)) = Inr p"
    and tr: "IsTruncated p = Some True" and ns: "page_names p = Some ns"
    and run: "Read_run conn d g (ul @ ns) (Marker p) (snd (call_GetGroup conn g m s)) y"
  shows "Read_run conn d g ul m s y"
proof -
  let ?w = "snd (GetGroup conn g m (world s))"
  from run obtain ps nss w1 where
    sv: "serves conn g (Marker p) ?w ps w1"
    and trs: "list_all (\<lambda>q. IsTruncated q = Some True) ps"
    and nss: "map page_names ps = map Some nss"
    and fin: "Read_final d g ((ul @ ns) @ concat nss)
                (fst (GetGroup conn g (last (Marker p # map Marker ps)) w1)) = Some (fst y, fst (snd y))"
    and s': "snd (snd y) = Env (snd (GetGroup conn g (last (Marker p # map Marker ps)) w1))
                  (events (snd (call_GetGroup conn g m s)) @ map (get_event g) (butlast (Marker p # map Marker ps))
                     @ [Event (GetGroupCall g (last (Marker p # map Marker ps)))
                          (failure_of (fst (GetGroup conn g (last (Marker p # map Marker ps)) w1)))])"
    unfolding Read_run_def by (auto simp: call_GetGroup_def Let_def)
  have ev: "events (snd (call_GetGroup conn g m s)) = events s @ [get_event g m]"
    using p by (simp add: call_GetGroup_def Let_def get_event_def)
  show ?thesis
    unfolding Read_run_def
    apply (rule exI [of _ "p # ps"])
    apply (rule exI [of _ "ns # nss"])
    apply (rule exI [of _ w1])
    using p tr ns sv trs nss fin s' ev by simp
qed

lemma Read_loop_cases:
  assumes "Read_loop conn d g ul m s = Some y"
  shows "Read_run conn d g ul m s y"
proof (rule Read_loop.raw_induct [where P = Read_run, OF _ assms])
  fix Read_loop' :: "'w IAM \<Rightarrow> ResourceData \<Rightarrow> string \<Rightarrow> string list \<Rightarrow> string option \<Rightarrow> 'w env
     \<Rightarrow> (outcome \<times> ResourceData \<times> 'w env) option"
  fix conn d g ul m s y
  assume IH: "\<And>d g ul m s b y. Read_loop' d g ul m s b = Some y \<Longrightarrow> Read_run d g ul m s b y"
  assume body: "(let r = call_GetGroup conn g m s in
      case fst r of
        Inl err \<Rightarrow>
          if has_code err ''NoSuchEntity''
          then Some (Return None, d\<lparr>d_Id := []\<rparr>, snd r)
          else Some (Return (Some err), d, snd r)
      | Inr resp \<Rightarrow>
          (case append_UserNames ul (Users resp) of
             None \<Rightarrow> Some (Panic, d, snd r)
           | Some ul' \<Rightarrow>
               (case IsTruncated resp of
                  None \<Rightarrow> Some (Panic, d, snd r)
                | Some truncated \<Rightarrow>
                    if \<not> truncated
                    then Some (fst (set_user_list d g ul'), snd (set_user_list d g ul'), snd r)
                    else Read_loop' conn d g ul' (Marker resp) (snd r)))) = Some y"
  let ?r = "fst (GetGroup conn g m (world s))"
  have body': "(case Read_final d g ul ?r of
        Some z \<Rightarrow> Some (fst z, snd z, snd (call_GetGroup conn g m s))
      | None \<Rightarrow>
          (case ?r of
             Inr resp \<Rightarrow> Read_loop' conn d g (the (append_UserNames ul (Users resp))) (Marker resp)
                          (snd (call_GetGroup conn g m s))
           | Inl err \<Rightarrow> None)) = Some y"
    using body by (simp only: Read_body_eq)
  show "Read_run conn d g ul m s y"
  proof (cases "Read_final d g ul ?r")
    case (Some z)
    with body' have "y = (fst z, snd z, snd (call_GetGroup conn g m s))" by simp
    with Read_run_final [OF Some] show ?thesis by simp
  next
    case None
    then obtain p ns where p: "?r = Inr p" and tr: "IsTruncated p = Some True"
      and ns: "page_names p = Some ns" and ap: "append_UserNames ul (Users p) = Some (ul @ ns)"
      using Read_final_None by blast
    from body' None p ap
    have "Read_loop' conn d g (ul @ ns) (Marker p) (snd (call_GetGroup conn g m s)) = Some y"
      by simp
    then have "Read_run conn d g (ul @ ns) (Marker p) (snd (call_GetGroup conn g m s)) y"
      by (rule IH)
    with p tr ns show ?thesis by (rule Read_run_step)
  qed
qed

lemma accepts_append:
  "accepts f g w (us @ vs) w' = (\<exists>w1. accepts f g w us w1 \<and> accepts f g w1 vs w')"
  by (induction us arbitrary: w) auto

lemma addUsersToGroup_accepts:
  "accepts (AddUserToGroup conn) g (world s) us w' \<Longrightarrow>
   addUsersToGroup conn us g s = (None, Env w' (events s @ map (add_event g) us))"
proof (induction us arbitrary: s)
  case Nil
  then show ?case by simp
next
  case (Cons u us)
  let ?s1 = "snd (call_AddUserToGroup conn u g s)"
  have s1: "?s1 = Env (snd (AddUserToGroup conn u g (world s))) (events s @ [add_event g u])"
    using Cons.prems by (simp add: call_AddUserToGroup_def Let_def add_event_def)
  have "addUsersToGroup conn us g ?s1 = (None, Env w' (events ?s1 @ map (add_event g) us))"
    using Cons.prems by (intro Cons.IH) (simp add: s1)
  then show ?case using Cons.prems by (simp add: call_AddUserToGroup_def Let_def s1 add_event_def)
qed

lemma addUsersToGroup_append:
  "addUsersToGroup conn us g s = (None, s1) \<Longrightarrow>
   addUsersToGroup conn (us @ vs) g s = addUsersToGroup conn vs g s1"
  by (induction us arbitrary: s) (auto simp: Let_def split: option.splits)

lemma addUsersToGroup_fails:
  assumes "accepts (AddUserToGroup conn) g (world s) pre w1"
    and "fst (AddUserToGroup conn u g w1) = Some e"
  shows "addUsersToGroup conn (pre @ u # rest) g s =
           (Some e, Env (snd (AddUserToGroup conn u g w1))
                      (events s @ map (add_event g) pre @ [Event (AddUserToGroupCall u g) (Some e)]))"
proof -
  have "addUsersToGroup conn (pre @ u # rest) g s =
        addUsersToGroup conn (u # rest) g (Env w1 (events s @ map (add_event g) pre))"
    using assms(1) by (intro addUsersToGroup_append addUsersToGroup_accepts)
  then show ?thesis using assms(2) by (simp add: call_AddUserToGroup_def Let_def)
qed

lemma removeUsersFromGroup_accepts:
  "accepts (RemoveUserFromGroup conn) g (world s) us w' \<Longrightarrow>
   removeUsersFromGroup conn us g s = (None, Env w' (events s @ map (remove_event g) us))"
proof (induction us arbitrary: s)
  case Nil
  then show ?case by simp
next
  case (Cons u us)
  let ?s1 = "snd (call_RemoveUserFromGroup conn u g s)"
  have s1: "?s1 = Env (snd (RemoveUserFromGroup conn u g (world s))) (events s @ [remove_event g u])"
    using Cons.prems by (simp add: call_RemoveUserFromGroup_def Let_def remove_event_def)
  have "removeUsersFromGroup conn us g ?s1 = (None, Env w' (events ?s1 @ map (remove_event g) us))"
    using Cons.prems by (intro Cons.IH) (simp add: s1)
  then show ?case using Cons.prems by (simp add: call_RemoveUserFromGroup_def Let_def s1 remove_event_def)
qed

lemma removeUsersFromGroup_append:
  "accepts (RemoveUserFromGroup conn) g (world s) us w1 \<Longrightarrow>
   removeUsersFromGroup conn (us @ vs) g s =
   removeUsersFromGroup conn vs g (Env w1 (events s @ map (remove_event g) us))"
proof (induction us arbitrary: s)
  case Nil
  then show ?case by simp
next
  case (Cons u us)
  let ?s1 = "snd (call_RemoveUserFromGroup conn u g s)"
  have s1: "?s1 = Env (snd (RemoveUserFromGroup conn u g (world s))) (events s @ [remove_event g u])"
    using Cons.prems by (simp add: call_RemoveUserFromGroup_def Let_def remove_event_def)
  have "removeUsersFromGroup conn (us @ vs) g ?s1 =
        removeUsersFromGroup conn vs g (Env w1 (events ?s1 @ map (remove_event g) us))"
    using Cons.prems by (intro Cons.IH) (simp add: s1)
  then show ?case using Cons.prems by (simp add: call_RemoveUserFromGroup_def Let_def s1 remove_event_def)
qed

lemma removeUsersFromGroup_fails:
  assumes "accepts (RemoveUserFromGroup conn) g (world s) pre w1"
    and "fst (RemoveUserFromGroup conn u g w1) = Some e"
  shows "removeUsersFromGroup conn (pre @ u # rest) g s =
           (if has_code e ''NoSuchEntity'' then None else Some e,
            Env (snd (RemoveUserFromGroup conn u g w1))
              (events s @ map (remove_event g) pre @ [Event (RemoveUserFromGroupCall u g) (Some e)]))"
  using assms(2)
  by (simp add: removeUsersFromGroup_append [OF assms(1)] call_RemoveUserFromGroup_def Let_def)








lemma Read_runE:
  assumes "Read_run conn d g ul m s (out, d', s')"
  obtains ps nss w1 where "serves conn g m (world s) ps w1"
    and "list_all (\<lambda>q. IsTruncated q = Some True) ps"
    and "map page_names ps = map Some nss"
    and "Read_final d g (ul @ concat nss) (fst (GetGroup conn g (last (m # map Marker ps)) w1)) = Some (out, d')"
    and "s' = Env (snd (GetGroup conn g (last (m # map Marker ps)) w1))
                  (events s @ map (get_event g) (butlast (m # map Marker ps))
                     @ [Event (GetGroupCall g (last (m # map Marker ps)))
                          (failure_of (fst (GetGroup conn g (last (m # map Marker ps)) w1)))])"
  using assms unfolding Read_run_def fst_conv snd_conv by blast


lemma append_UserNames_listed: "append_UserNames ul (listed ns) = Some (ul @ ns)"
  by (induction ns arbitrary: ul) (simp_all add: listed_def)

lemma page_names_listed: "page_names \<lparr>Users = listed ns, IsTruncated = t, Marker = m\<rparr> = Some ns"
  by (simp add: page_names_def append_UserNames_listed)

lemma serves_append:
  "serves conn g m w (ps @ qs) w' =
     (\<exists>w1. serves conn g m w ps w1 \<and> serves conn g (last (m # map Marker ps)) w1 qs w')"
  by (induction ps arbitrary: m w) auto

lemma Read_loop_ends:
  assumes "serves conn g m (world s) ps w1"
    and "list_all (\<lambda>q. IsTruncated q = Some True) ps"
    and "map page_names ps = map Some nss"
    and "Read_final d g (ul @ concat nss) (fst (GetGroup conn g (last (m # map Marker ps)) w1))
           = Some (out, d')"
  shows "Read_loop conn d g ul m s =
           Some (out, d',
                 Env (snd (GetGroup conn g (last (m # map Marker ps)) w1))
                   (events s @ map (get_event g) (butlast (m # map Marker ps))
                      @ [Event (GetGroupCall g (last (m # map Marker ps)))
                           (failure_of (fst (GetGroup conn g (last (m # map Marker ps)) w1)))]))"
proof -
  let ?s1 = "Env w1 (events s @ map (get_event g) (butlast (m # map Marker ps)))"
  have "Read_loop conn d g ul m s =
        Read_loop conn d g (ul @ concat nss) (last (m # map Marker ps)) ?s1"
    using assms(1-3) by (rule Read_loop_pages)
  also have "\<dots> = Some (out, d',
                 Env (snd (GetGroup conn g (last (m # map Marker ps)) (world ?s1)))
                   (events ?s1 @ [Event (GetGroupCall g (last (m # map Marker ps)))
                           (failure_of (fst (GetGroup conn g (last (m # map Marker ps)) (world ?s1))))]))"
    using assms(4) by (intro Read_loop_final) simp
  finally show ?thesis by simp
qed

lemma Read_final_last_page:
  assumes "IsTruncated p = Some False" and "page_names p = Some ns"
  shows "Read_final d g ul (Inr p) = Some (Return None, d\<lparr>d_users := Some (remdups (ul @ ns))\<rparr>)"
  using assms
  by (simp add: Read_final_def page_names_def append_UserNames_acc [of ul]
        set_user_list_def Set_users_def)

lemma Read_final_ill_formed:
  assumes "\<not> well_formed p"
  shows "Read_final d g ul (Inr p) = Some (Panic, d)"
  using assms
  by (auto simp: Read_final_def well_formed_def page_names_def append_UserNames_acc [of ul]
        split: option.splits)

lemma Read_final_error:
  "Read_final d g ul (Inl e) =
     Some (if has_code e ''NoSuchEntity'' then (Return None, d\<lparr>d_Id := []\<rparr>)
           else (Return (Some e), d))"
  by (simp add: Read_final_def)

lemma Read_final_Panic:
  assumes "Read_final d g ul r = Some (Panic, d')"
  shows "\<exists>p. r = Inr p \<and> \<not> well_formed p"
  using assms
  by (auto simp: Read_final_def well_formed_def page_names_def append_UserNames_acc [of ul]
        set_user_list_def Set_users_def split: sum.splits option.splits if_splits)

lemma asked_all:
  "map (get_event g) (butlast (m # ms)) @ [Event (GetGroupCall g (last (m # ms))) None] =
     map (get_event g) (m # ms)"
  by (induction ms arbitrary: m) (simp_all add: get_event_def)

lemma sim_well_formed: "fst (GetGroup (sim k) g m w) = Inr p \<Longrightarrow> well_formed p"
  by (auto simp: sim_def sim_GetGroup_def well_formed_def page_names_def append_UserNames_listed
        Let_def split: if_splits option.splits)

lemma Read_first_call:
  assumes "Read_final d (d_group d) [] (fst (GetGroup conn (d_group d) None (world s))) = Some (out, d')"
  shows "resourceAwsIamGroupMembershipRead conn d s =
           Some (out, d', Env (snd (GetGroup conn (d_group d) None (world s)))
                   (events s @ [Event (GetGroupCall (d_group d) None)
                                  (failure_of (fst (GetGroup conn (d_group d) None (world s))))]))"
  unfolding resourceAwsIamGroupMembershipRead_def using assms by (rule Read_loop_final)

lemma Create_unfold:
  "resourceAwsIamGroupMembershipCreate conn d s =
     (case addUsersToGroup conn (Get_users d) (d_group d) s of
        (Some err, s1) \<Rightarrow> Some (Return (Some err), d, s1)
      | (None, s1) \<Rightarrow> resourceAwsIamGroupMembershipRead conn (d\<lparr>d_Id := d_name d\<rparr>) s1)"
  by (simp add: resourceAwsIamGroupMembershipCreate_def expandStringList_def Let_def
        split: prod.splits option.splits)

lemma Update_unfold:
  "resourceAwsIamGroupMembershipUpdate conn d s =
     (if HasChange_users d then
        (case removeUsersFromGroup conn (to_remove d) (d_group d) s of
           (Some err, s1) \<Rightarrow> Some (Return (Some err), d, s1)
         | (None, s1) \<Rightarrow>
             (case addUsersToGroup conn (to_add d) (d_group d) s1 of
                (Some err, s2) \<Rightarrow> Some (Return (Some err), d, s2)
              | (None, s2) \<Rightarrow> resourceAwsIamGroupMembershipRead conn d s2))
      else resourceAwsIamGroupMembershipRead conn d s)"
  by (simp add: resourceAwsIamGroupMembershipUpdate_def to_remove_def to_add_def
        GetChange_users_def Let_def split: prod.splits option.splits)


lemma no_change_no_delta:
  assumes "\<not> HasChange_users d"
  shows "to_remove d = []" and "to_add d = []"
  using assms
  by (auto simp: HasChange_users_def GetChange_users_def to_remove_def to_add_def
        expandStringList_def Difference_def nil_to_empty_def split: option.splits)

lemma delta_sets:
  "set (to_remove d) = set (nil_to_empty (d_users_prior d)) - set (nil_to_empty (d_users d))"
  "set (to_add d) = set (nil_to_empty (d_users d)) - set (nil_to_empty (d_users_prior d))"
  by (auto simp: to_remove_def to_add_def expandStringList_def Difference_def)

lemma delta_distinct:
  "distinct (nil_to_empty (d_users_prior d)) \<Longrightarrow> distinct (to_remove d)"
  "distinct (nil_to_empty (d_users d)) \<Longrightarrow> distinct (to_add d)"
  by (simp_all add: to_remove_def to_add_def expandStringList_def Difference_def)

lemma Read_loop_last_page:
  assumes "serves conn g m (world s) (ps @ [p]) w'"
    and "list_all (\<lambda>q. IsTruncated q = Some True) ps"
    and "IsTruncated p = Some False"
    and "map page_names (ps @ [p]) = map Some nss"
  shows "Read_loop conn d g ul m s =
           Some (Return None, d\<lparr>d_users := Some (remdups (ul @ concat nss))\<rparr>,
                 Env w' (events s @ map (get_event g) (m # map Marker ps)))"
proof -
  let ?m = "last (m # map Marker ps)"
  from assms(1) obtain w1 where sv: "serves conn g m (world s) ps w1"
    and p: "fst (GetGroup conn g ?m w1) = Inr p" and w': "w' = snd (GetGroup conn g ?m w1)"
    by (auto simp: serves_append)
  from assms(4) obtain nss' ns where nss: "nss = nss' @ [ns]"
    and names: "map page_names ps = map Some nss'" and ns: "page_names p = Some ns"
    by (cases nss rule: rev_cases) auto
  have "Read_final d g (ul @ concat nss') (fst (GetGroup conn g ?m w1)) =
          Some (Return None, d\<lparr>d_users := Some (remdups ((ul @ concat nss') @ ns))\<rparr>)"
    unfolding p using assms(3) ns by (rule Read_final_last_page)
  from Read_loop_ends [OF sv assms(2) names this]
  show ?thesis
    by (simp add: p w' nss failure_of_def asked_all del: last.simps butlast.simps)
qed

lemma Read_final_frame:
  assumes "Read_final d g ul r = Some (out, d')"
  shows "d_name d' = d_name d \<and> d_group d' = d_group d \<and> d_users_prior d' = d_users_prior d"
  using assms
  by (auto simp: Read_final_def set_user_list_def Set_users_def
        split: sum.splits option.splits if_splits)

lemma Read_frame:
  assumes "resourceAwsIamGroupMembershipRead conn d s = Some (out, d', s')"
  shows "(\<exists>evs. events s' = events s @ evs \<and> list_all is_GetGroup evs) \<and>
         d_name d' = d_name d \<and> d_group d' = d_group d \<and> d_users_prior d' = d_users_prior d"
proof -
  from assms have "Read_run conn d (d_group d) [] None s (out, d', s')"
    unfolding resourceAwsIamGroupMembershipRead_def by (rule Read_loop_cases)
  then obtain ps nss w1 where "serves conn (d_group d) None (world s) ps w1"
    and fin: "Read_final d (d_group d) ([] @ concat nss)
                (fst (GetGroup conn (d_group d) (last (None # map Marker ps)) w1)) = Some (out, d')"
    and s': "s' = Env (snd (GetGroup conn (d_group d) (last (None # map Marker ps)) w1))
                  (events s @ map (get_event (d_group d)) (butlast (None # map Marker ps))
                     @ [Event (GetGroupCall (d_group d) (last (None # map Marker ps)))
                          (failure_of (fst (GetGroup conn (d_group d) (last (None # map Marker ps)) w1)))])"
    by (rule Read_runE)
  define evs where "evs = map (get_event (d_group d)) (butlast (None # map Marker ps))
                     @ [Event (GetGroupCall (d_group d) (last (None # map Marker ps)))
                          (failure_of (fst (GetGroup conn (d_group d) (last (None # map Marker ps)) w1)))]"
  have "list_all is_GetGroup evs"
    unfolding evs_def by (simp add: list_all_iff get_event_def del: last.simps butlast.simps)
  moreover have "events s' = events s @ evs"
    by (simp only: evs_def s' env.sel)
  ultimately have "\<exists>evs. events s' = events s @ evs \<and> list_all is_GetGroup evs"
    by blast
  with Read_final_frame [OF fin] show ?thesis by simp
qed





lemma Read_single_page:
  assumes "GetGroup conn (d_group d) None (world s) = (Inr p, w')"
    and "IsTruncated p = Some False" and "page_names p = Some ns"
  shows "resourceAwsIamGroupMembershipRead conn d s =
           Some (Return None, d\<lparr>d_users := Some (remdups ns)\<rparr>,
                 Env w' (events s @ [get_event (d_group d) None]))"
proof -
  have "Read_final d (d_group d) [] (fst (GetGroup conn (d_group d) None (world s))) =
          Some (Return None, d\<lparr>d_users := Some (remdups ([] @ ns))\<rparr>)"
    unfolding assms(1) fst_conv using assms(2,3) by (rule Read_final_last_page)
  from Read_first_call [OF this] show ?thesis
    by (simp add: assms(1) failure_of_def get_event_def)
qed

lemma sim_Read_single_page:
  assumes "map_of gs g = Some ms" and "length ms \<le> k" and "g \<notin> set dn"
  shows "resourceAwsIamGroupMembershipRead (sim k) (d\<lparr>d_group := g\<rparr>) (Env (IamState ac gs dn) evs) =
           Some (Return None, d\<lparr>d_group := g, d_users := Some (remdups ms)\<rparr>,
                 Env (IamState ac gs dn) (evs @ [get_event g None]))"
  using assms
    Read_single_page [of "sim k" "d\<lparr>d_group := g\<rparr>" "Env (IamState ac gs dn) evs"
      "\<lparr>Users = listed ms, IsTruncated = Some False, Marker = None\<rparr>" "IamState ac gs dn" ms]
  by (simp add: sim_def sim_GetGroup_def page_names_listed)

lemma accepts_members:
  assumes "\<forall>u w w'. f u g w = (None, w') \<longrightarrow> mem w' = insert u (mem w)"
    and "accepts f g w us w'"
  shows "mem w' = mem w \<union> set us"
  using assms(2)
proof (induction us arbitrary: w)
  case Nil
  then show ?case by simp
next
  case (Cons u us)
  let ?w1 = "snd (f u g w)"
  from Cons.prems have "f u g w = (None, ?w1)" and rest: "accepts f g ?w1 us w'"
    by (simp_all add: prod_eq_iff)
  with assms(1) have "mem ?w1 = insert u (mem w)" by blast
  with Cons.IH [OF rest] show ?case by simp
qed

lemma map_of_update_members:
  "map_of (update_members g f gs) g' =
     (if g' = g then map_option f (map_of gs g) else map_of gs g')"
  by (induction gs) (auto simp: update_members_def)

lemma sim_add_members:
  assumes "sim_AddUserToGroup u g w = (None, w')"
  shows "sim_members g w' = insert u (sim_members g w)"
  using assms
  by (auto simp: sim_AddUserToGroup_def sim_members_def map_of_update_members access_denied_def
        no_such_entity_def split: if_splits option.splits)

section \<open>Runs against the model of the identity service\<close>

lemmas run_defs = call_AddUserToGroup_def call_RemoveUserFromGroup_def Let_def
  sim_def sim_AddUserToGroup_def sim_RemoveUserFromGroup_def update_members_def
  membership_def Get_users_def nil_to_empty_def to_remove_def to_add_def Difference_def
  expandStringList_def HasChange_users_def GetChange_users_def
  no_such_entity_def access_denied_def





section \<open>The claims\<close>

subsection \<open>C1: Delete\<close>

text \<open>
  C1 says that Delete removes every member of the list, that a removal answered "not found"
  counts as success while the remaining members are still removed, and that any other
  error aborts and is returned. The loop of \<^verbatim>\<open>removeUsersFromGroup\<close> returns nil at the
  first removal answered \<^verbatim>\<open>NoSuchEntity\<close> (line 151) instead of going on to the next
  user. Here the record has the members alice and bob, which the set enumerates as bob,
  alice; the account of bob no longer exists and alice is a member of the group. Delete
  issues the one call for bob, returns no error, issues no call for alice, and alice is
  still a member.
\<close>

theorem Delete_stops_at_first_NoSuchEntity:
  "resourceAwsIamGroupMembershipDelete (sim 2)
     (membership (Some [''bob'', ''alice'']) (Some [''bob'', ''alice'']))
     (Env (IamState [''alice''] [(''devs'', [''alice''])] []) []) =
   (None, Env (IamState [''alice''] [(''devs'', [''alice''])] [])
            [Event (RemoveUserFromGroupCall ''bob'' ''devs'') (Some no_such_entity)])"
  by (simp add: resourceAwsIamGroupMembershipDelete_def membership_def
        Get_users_def expandStringList_def call_RemoveUserFromGroup_def Let_def sim_defs)

subsection \<open>C2: Update issues the difference\<close>

text \<open>
  C2 says that for all old members O and new members D, Update issues exactly the removals
  O - D and exactly the additions D - O, each once, all removals before any addition, and
  that a failure of the removal step aborts before the addition step. The removal loop
  returns nil at the first removal answered \<^verbatim>\<open>NoSuchEntity\<close> (line 151, the defect of
  C1), so the removal step then ends without a failure and without the removals that
  were left. Here O is alice and bob, enumerated bob, alice, and D is oscar, so that
  O - D is bob, alice; the account of bob no longer exists and alice is a member of the
  group. Update issues the removal of bob, which is answered \<^verbatim>\<open>NoSuchEntity\<close>, issues no
  removal for alice, goes on to add oscar and to read, and returns no error: alice is
  still a member of the group and of the record.
\<close>

theorem Update_ends_removals_at_NoSuchEntity:
  "resourceAwsIamGroupMembershipUpdate (sim 2)
     (membership (Some [''bob'', ''alice'']) (Some [''oscar'']))
     (Env (IamState [''alice'', ''oscar''] [(''devs'', [''alice''])] []) []) =
   Some (Return None, membership (Some [''bob'', ''alice'']) (Some [''alice'', ''oscar'']),
         Env (IamState [''alice'', ''oscar''] [(''devs'', [''alice'', ''oscar''])] [])
           [Event (RemoveUserFromGroupCall ''bob'' ''devs'') (Some no_such_entity),
            Event (AddUserToGroupCall ''oscar'' ''devs'') None,
            Event (GetGroupCall ''devs'' None) None]) \<and>
   to_remove (membership (Some [''bob'', ''alice'']) (Some [''oscar''])) = [''bob'', ''alice''] \<and>
   to_add (membership (Some [''bob'', ''alice'']) (Some [''oscar''])) = [''oscar'']"
  using sim_Read_single_page [of "[(''devs'', [''alice'', ''oscar''])]" "''devs''"
      "[''alice'', ''oscar'']" 2 "[]" "membership (Some [''bob'', ''alice'']) (Some [''oscar''])"
      "[''alice'', ''oscar'']"
      "[Event (RemoveUserFromGroupCall ''bob'' ''devs'') (Some no_such_entity),
        Event (AddUserToGroupCall ''oscar'' ''devs'') None]"]
  by (simp add: Update_unfold run_defs get_event_def)

text \<open>
  On the runs in which every removal and every addition call succeeds, Update does issue
  exactly the removals O - D and then exactly the additions D - O, each member once, and
  then performs Read on the unchanged record. A removal that fails with an error other
  than \<^verbatim>\<open>NoSuchEntity\<close> makes Update return that error before any addition is issued, and
  an addition that fails makes Update return that error without issuing the additions
  after it.
\<close>

theorem Update_issues_delta:
  "(distinct (nil_to_empty (d_users_prior d)) \<and> distinct (nil_to_empty (d_users d)) \<and>
    accepts (RemoveUserFromGroup conn) (d_group d) (world s) (to_remove d) w1 \<and>
    accepts (AddUserToGroup conn) (d_group d) w1 (to_add d) w2 \<longrightarrow>
      resourceAwsIamGroupMembershipUpdate conn d s =
        resourceAwsIamGroupMembershipRead conn d
          (Env w2 (events s @ map (remove_event (d_group d)) (to_remove d)
                            @ map (add_event (d_group d)) (to_add d))) \<and>
      set (to_remove d) = set (nil_to_empty (d_users_prior d)) - set (nil_to_empty (d_users d)) \<and>
      set (to_add d) = set (nil_to_empty (d_users d)) - set (nil_to_empty (d_users_prior d)) \<and>
      distinct (to_remove d) \<and> distinct (to_add d)) \<and>
   (to_remove d = pre @ u # rest \<and>
    accepts (RemoveUserFromGroup conn) (d_group d) (world s) pre w1 \<and>
    RemoveUserFromGroup conn u (d_group d) w1 = (Some e, w2) \<and>
    \<not> has_code e ''NoSuchEntity'' \<longrightarrow>
      resourceAwsIamGroupMembershipUpdate conn d s =
        Some (Return (Some e), d,
              Env w2 (events s @ map (remove_event (d_group d)) pre
                        @ [Event (RemoveUserFromGroupCall u (d_group d)) (Some e)]))) \<and>
   (to_add d = pre @ u # rest \<and>
    accepts (RemoveUserFromGroup conn) (d_group d) (world s) (to_remove d) w1 \<and>
    accepts (AddUserToGroup conn) (d_group d) w1 pre w2 \<and>
    AddUserToGroup conn u (d_group d) w2 = (Some e, w3) \<longrightarrow>
      resourceAwsIamGroupMembershipUpdate conn d s =
        Some (Return (Some e), d,
              Env w3 (events s @ map (remove_event (d_group d)) (to_remove d)
                        @ map (add_event (d_group d)) pre
                        @ [Event (AddUserToGroupCall u (d_group d)) (Some e)])))"
proof (intro conjI impI)
  assume a: "distinct (nil_to_empty (d_users_prior d)) \<and> distinct (nil_to_empty (d_users d)) \<and>
    accepts (RemoveUserFromGroup conn) (d_group d) (world s) (to_remove d) w1 \<and>
    accepts (AddUserToGroup conn) (d_group d) w1 (to_add d) w2"
  let ?s1 = "Env w1 (events s @ map (remove_event (d_group d)) (to_remove d))"
  let ?s2 = "Env w2 (events s @ map (remove_event (d_group d)) (to_remove d)
                            @ map (add_event (d_group d)) (to_add d))"
  from a have rem: "removeUsersFromGroup conn (to_remove d) (d_group d) s = (None, ?s1)"
    by (intro removeUsersFromGroup_accepts) simp
  from a have add: "addUsersToGroup conn (to_add d) (d_group d) ?s1 = (None, ?s2)"
    using addUsersToGroup_accepts [of conn "d_group d" ?s1 "to_add d" w2] by simp
  show "resourceAwsIamGroupMembershipUpdate conn d s =
          resourceAwsIamGroupMembershipRead conn d ?s2"
  proof (cases "HasChange_users d")
    case True
    with rem add show ?thesis by (simp add: Update_unfold)
  next
    case False
    with a have "w1 = world s" and "w2 = w1" by (simp_all add: no_change_no_delta)
    with False show ?thesis by (simp add: Update_unfold no_change_no_delta)
  qed
  show "set (to_remove d) = set (nil_to_empty (d_users_prior d)) - set (nil_to_empty (d_users d))"
    by (rule delta_sets)
  show "set (to_add d) = set (nil_to_empty (d_users d)) - set (nil_to_empty (d_users_prior d))"
    by (rule delta_sets)
  from a show "distinct (to_remove d)" by (simp add: delta_distinct)
  from a show "distinct (to_add d)" by (simp add: delta_distinct)
next
  assume a: "to_remove d = pre @ u # rest \<and>
    accepts (RemoveUserFromGroup conn) (d_group d) (world s) pre w1 \<and>
    RemoveUserFromGroup conn u (d_group d) w1 = (Some e, w2) \<and>
    \<not> has_code e ''NoSuchEntity''"
  then have change: "HasChange_users d" using no_change_no_delta(1) [of d] by auto
  from a have "removeUsersFromGroup conn (pre @ u # rest) (d_group d) s =
           (if has_code e ''NoSuchEntity'' then None else Some e,
            Env (snd (RemoveUserFromGroup conn u (d_group d) w1))
              (events s @ map (remove_event (d_group d)) pre
                 @ [Event (RemoveUserFromGroupCall u (d_group d)) (Some e)]))"
    by (intro removeUsersFromGroup_fails) simp_all
  with a change show "resourceAwsIamGroupMembershipUpdate conn d s =
        Some (Return (Some e), d,
              Env w2 (events s @ map (remove_event (d_group d)) pre
                        @ [Event (RemoveUserFromGroupCall u (d_group d)) (Some e)]))"
    by (simp add: Update_unfold)
next
  assume a: "to_add d = pre @ u # rest \<and>
    accepts (RemoveUserFromGroup conn) (d_group d) (world s) (to_remove d) w1 \<and>
    accepts (AddUserToGroup conn) (d_group d) w1 pre w2 \<and>
    AddUserToGroup conn u (d_group d) w2 = (Some e, w3)"
  then have change: "HasChange_users d" using no_change_no_delta(2) [of d] by auto
  let ?s1 = "Env w1 (events s @ map (remove_event (d_group d)) (to_remove d))"
  from a have rem: "removeUsersFromGroup conn (to_remove d) (d_group d) s = (None, ?s1)"
    by (intro removeUsersFromGroup_accepts) simp
  from a have "addUsersToGroup conn (pre @ u # rest) (d_group d) ?s1 =
           (Some e, Env (snd (AddUserToGroup conn u (d_group d) w2))
                      (events ?s1 @ map (add_event (d_group d)) pre
                         @ [Event (AddUserToGroupCall u (d_group d)) (Some e)]))"
    by (intro addUsersToGroup_fails) simp_all
  with a change rem show "resourceAwsIamGroupMembershipUpdate conn d s =
        Some (Return (Some e), d,
              Env w3 (events s @ map (remove_event (d_group d)) (to_remove d)
                        @ map (add_event (d_group d)) pre
                        @ [Event (AddUserToGroupCall u (d_group d)) (Some e)]))"
    by (simp add: Update_unfold)
qed

theorem Update_issues_delta_witness:
  "resourceAwsIamGroupMembershipUpdate (sim 2)
     (membership (Some [''bob'', ''alice'']) (Some [''carol'', ''bob'']))
     (Env (IamState [''alice'', ''bob'', ''carol''] [(''devs'', [''alice'', ''bob''])] []) []) =
   resourceAwsIamGroupMembershipRead (sim 2)
     (membership (Some [''bob'', ''alice'']) (Some [''carol'', ''bob'']))
     (Env (IamState [''alice'', ''bob'', ''carol''] [(''devs'', [''bob'', ''carol''])] [])
        [Event (RemoveUserFromGroupCall ''alice'' ''devs'') None,
         Event (AddUserToGroupCall ''carol'' ''devs'') None]) \<and>
   resourceAwsIamGroupMembershipUpdate (sim 2)
     (membership (Some [''bob'', ''alice'']) (Some [''carol'']))
     (Env (IamState [''alice'', ''bob'', ''carol''] [(''devs'', [''alice'', ''bob''])] [''alice'']) []) =
   Some (Return (Some access_denied), membership (Some [''bob'', ''alice'']) (Some [''carol'']),
         Env (IamState [''alice'', ''bob'', ''carol''] [(''devs'', [''alice''])] [''alice''])
           [Event (RemoveUserFromGroupCall ''bob'' ''devs'') None,
            Event (RemoveUserFromGroupCall ''alice'' ''devs'') (Some access_denied)]) \<and>
   resourceAwsIamGroupMembershipUpdate (sim 2)
     (membership (Some [''alice'']) (Some [''carol'', ''bob'']))
     (Env (IamState [''alice'', ''bob'', ''carol''] [(''devs'', [''alice''])] [''bob'']) []) =
   Some (Return (Some access_denied), membership (Some [''alice'']) (Some [''carol'', ''bob'']),
         Env (IamState [''alice'', ''bob'', ''carol''] [(''devs'', [''carol''])] [''bob''])
           [Event (RemoveUserFromGroupCall ''alice'' ''devs'') None,
            Event (AddUserToGroupCall ''carol'' ''devs'') None,
            Event (AddUserToGroupCall ''bob'' ''devs'') (Some access_denied)])"
  using Update_issues_delta [where conn = "sim 2"
      and d = "membership (Some [''bob'', ''alice'']) (Some [''carol'', ''bob''])"
      and s = "Env (IamState [''alice'', ''bob'', ''carol''] [(''devs'', [''alice'', ''bob''])] []) []"
      and ?w1.0 = "IamState [''alice'', ''bob'', ''carol''] [(''devs'', [''bob''])] []"
      and ?w2.0 = "IamState [''alice'', ''bob'', ''carol''] [(''devs'', [''bob'', ''carol''])] []"]
    Update_issues_delta [where conn = "sim 2"
      and d = "membership (Some [''bob'', ''alice'']) (Some [''carol''])"
      and s = "Env (IamState [''alice'', ''bob'', ''carol''] [(''devs'', [''alice'', ''bob''])] [''alice'']) []"
      and pre = "[''bob'']" and u = "''alice''" and rest = "[]" and e = access_denied
      and ?w1.0 = "IamState [''alice'', ''bob'', ''carol''] [(''devs'', [''alice''])] [''alice'']"
      and ?w2.0 = "IamState [''alice'', ''bob'', ''carol''] [(''devs'', [''alice''])] [''alice'']"]
    Update_issues_delta [where conn = "sim 2"
      and d = "membership (Some [''alice'']) (Some [''carol'', ''bob''])"
      and s = "Env (IamState [''alice'', ''bob'', ''carol''] [(''devs'', [''alice''])] [''bob'']) []"
      and pre = "[''carol'']" and u = "''bob''" and rest = "[]" and e = access_denied
      and ?w1.0 = "IamState [''alice'', ''bob'', ''carol''] [(''devs'', [])] [''bob'']"
      and ?w2.0 = "IamState [''alice'', ''bob'', ''carol''] [(''devs'', [''carol''])] [''bob'']"
      and ?w3.0 = "IamState [''alice'', ''bob'', ''carol''] [(''devs'', [''carol''])] [''bob'']"]
  by (simp add: sim_def sim_AddUserToGroup_def sim_RemoveUserFromGroup_def update_members_def
        membership_def nil_to_empty_def to_remove_def to_add_def Difference_def
        expandStringList_def access_denied_def add_event_def remove_event_def)

subsection \<open>C3: Read follows the pages of the listing\<close>

text \<open>
  C3: for every sequence of N listing pages, each with a truncation flag and a marker, Read
  aggregates the user names of all N pages into the members of the record, asks for each
  page after the first with the marker of the page before, and stops asking exactly when
  a page is not truncated. Here the N pages are \<open>ps @ [p]\<close>: the pages of \<open>ps\<close> are
  truncated and \<open>p\<close> is not. The log gains exactly N listing calls, the first without a
  marker and the others with the markers of \<open>ps\<close> in order, and the members are the names
  of all pages.
\<close>

theorem Read_aggregates_pages:
  assumes "serves conn (d_group d) None (world s) (ps @ [p]) w'"
    and "list_all (\<lambda>q. IsTruncated q = Some True) ps"
    and "IsTruncated p = Some False"
    and "map page_names (ps @ [p]) = map Some nss"
  shows "resourceAwsIamGroupMembershipRead conn d s =
           Some (Return None, d\<lparr>d_users := Some (remdups (concat nss))\<rparr>,
                 Env w' (events s @ map (get_event (d_group d)) (None # map Marker ps)))"
  unfolding resourceAwsIamGroupMembershipRead_def
  using Read_loop_last_page [OF assms, of d "[]"] by simp

theorem Read_aggregates_pages_witness:
  "resourceAwsIamGroupMembershipRead (sim 2) (membership None None)
     (Env (IamState [''alice'', ''bob'', ''carol''] [(''devs'', [''alice'', ''bob'', ''carol''])] []) []) =
   Some (Return None, membership None (Some [''alice'', ''bob'', ''carol'']),
         Env (IamState [''alice'', ''bob'', ''carol''] [(''devs'', [''alice'', ''bob'', ''carol''])] [])
           [Event (GetGroupCall ''devs'' None) None,
            Event (GetGroupCall ''devs'' (Some ''ii'')) None])"
  using Read_aggregates_pages [of "sim 2" "membership None None"
      "Env (IamState [''alice'', ''bob'', ''carol''] [(''devs'', [''alice'', ''bob'', ''carol''])] []) []"
      "[\<lparr>Users = listed [''alice'', ''bob''], IsTruncated = Some True, Marker = Some ''ii''\<rparr>]"
      "\<lparr>Users = listed [''carol''], IsTruncated = Some False, Marker = None\<rparr>"
      "IamState [''alice'', ''bob'', ''carol''] [(''devs'', [''alice'', ''bob'', ''carol''])] []"
      "[[''alice'', ''bob''], [''carol'']]"]
  by (simp add: sim_def sim_GetGroup_def membership_def page_names_listed get_event_def
        eval_nat_numeral)

subsection \<open>C4: a listing that fails\<close>

text \<open>
  C4: when the listing call of Read fails with the code \<^verbatim>\<open>NoSuchEntity\<close>, Read clears
  the identity of the record and returns no error; when it fails with any other error,
  Read returns that error and leaves the record, its identity included, unchanged. The
  failing call may be the first or follow any number of truncated pages.
\<close>

theorem Read_listing_error:
  assumes "serves conn (d_group d) None (world s) ps w1"
    and "list_all (\<lambda>q. IsTruncated q = Some True) ps"
    and "map page_names ps = map Some nss"
    and "GetGroup conn (d_group d) (last (None # map Marker ps)) w1 = (Inl e, w2)"
  shows "resourceAwsIamGroupMembershipRead conn d s =
           Some (if has_code e ''NoSuchEntity'' then Return None else Return (Some e),
                 if has_code e ''NoSuchEntity'' then d\<lparr>d_Id := []\<rparr> else d,
                 Env w2 (events s @ map (get_event (d_group d)) (butlast (None # map Marker ps))
                           @ [Event (GetGroupCall (d_group d) (last (None # map Marker ps))) (Some e)]))"
proof -
  let ?g = "d_group d"
  let ?m = "last (None # map Marker ps)"
  have "Read_final d ?g ([] @ concat nss) (fst (GetGroup conn ?g ?m w1)) =
          Some (if has_code e ''NoSuchEntity'' then Return None else Return (Some e),
                if has_code e ''NoSuchEntity'' then d\<lparr>d_Id := []\<rparr> else d)"
    by (simp add: assms(4) Read_final_error del: last.simps)
  from Read_loop_ends [OF assms(1-3) this]
  show ?thesis
    unfolding resourceAwsIamGroupMembershipRead_def
    by (simp add: assms(4) failure_of_def del: last.simps butlast.simps)
qed

theorem Read_listing_error_witness:
  "resourceAwsIamGroupMembershipRead (sim 2) (membership None (Some [''alice'']))
     (Env (IamState [''alice''] [] []) []) =
   Some (Return None, (membership None (Some [''alice'']))\<lparr>d_Id := []\<rparr>,
         Env (IamState [''alice''] [] [])
           [Event (GetGroupCall ''devs'' None) (Some no_such_entity)]) \<and>
   resourceAwsIamGroupMembershipRead (sim 2) (membership None (Some [''alice'']))
     (Env (IamState [''alice''] [(''devs'', [''alice''])] [''devs'']) []) =
   Some (Return (Some access_denied), membership None (Some [''alice'']),
         Env (IamState [''alice''] [(''devs'', [''alice''])] [''devs''])
           [Event (GetGroupCall ''devs'' None) (Some access_denied)])"
  using Read_listing_error [of "sim 2" "membership None (Some [''alice''])"
      "Env (IamState [''alice''] [] []) []" "[]" "IamState [''alice''] [] []" "[]"
      no_such_entity "IamState [''alice''] [] []"]
    Read_listing_error [of "sim 2" "membership None (Some [''alice''])"
      "Env (IamState [''alice''] [(''devs'', [''alice''])] [''devs'']) []" "[]"
      "IamState [''alice''] [(''devs'', [''alice''])] [''devs'']" "[]"
      access_denied "IamState [''alice''] [(''devs'', [''alice''])] [''devs'']"]
  by (simp add: sim_def sim_GetGroup_def membership_def no_such_entity_def access_denied_def)

subsection \<open>C5: Import\<close>

text \<open>
  C5: Import returns a format error if and only if the identifier it is given (the
  identity of the record) is the empty string. For a non-empty identifier it succeeds
  with one record whose group is the identifier and whose identity is the generated
  token, which is not empty; the members of the record are not written.
\<close>

theorem Import_checks_identifier:
  "((\<exists>e. resourceAwsIamGroupMembershipImport d suffix = Inl e) \<longleftrightarrow> d_Id d = []) \<and>
   (d_Id d = [] \<longrightarrow>
      resourceAwsIamGroupMembershipImport d suffix =
        Inl (OtherError (''unexpected format of ID ('' @ quoted []
                           @ ''), expected <group-name>''))) \<and>
   (d_Id d \<noteq> [] \<longrightarrow>
      resourceAwsIamGroupMembershipImport d suffix =
        Inr [d\<lparr>d_group := d_Id d, d_Id := UniqueId suffix\<rparr>] \<and>
      UniqueId suffix \<noteq> [] \<and>
      d_users (d\<lparr>d_group := d_Id d, d_Id := UniqueId suffix\<rparr>) = d_users d)"
  by (auto simp: resourceAwsIamGroupMembershipImport_def UniqueId_def Let_def)

theorem Import_checks_identifier_witness:
  "resourceAwsIamGroupMembershipImport
     \<lparr>d_Id = [], d_name = [], d_group = [], d_users_prior = None, d_users = None\<rparr>
     ''20191024120000000000000001'' =
     Inl (OtherError (''unexpected format of ID ('' @ quoted [] @ ''), expected <group-name>'')) \<and>
   resourceAwsIamGroupMembershipImport
     \<lparr>d_Id = ''my-group'', d_name = [], d_group = [], d_users_prior = None, d_users = None\<rparr>
     ''20191024120000000000000001'' =
     Inr [\<lparr>d_Id = ''terraform-20191024120000000000000001'', d_name = [], d_group = ''my-group'',
           d_users_prior = None, d_users = None\<rparr>]"
  using Import_checks_identifier
      [of "\<lparr>d_Id = [], d_name = [], d_group = [], d_users_prior = None, d_users = None\<rparr>"
          "''20191024120000000000000001''"]
    Import_checks_identifier
      [of "\<lparr>d_Id = ''my-group'', d_name = [], d_group = [], d_users_prior = None, d_users = None\<rparr>"
          "''20191024120000000000000001''"]
  by (simp add: UniqueId_def)

subsection \<open>C6: Create\<close>

text \<open>
  C6: Create issues one add call per desired member, in turn. When all of them succeed
  it sets the identity to the configured name and performs Read. The first add that
  fails ends the loop: Create returns that error, the record (its identity included) is
  as it was, and the calls made are the adds up to the failing one, with no call that
  undoes them.
\<close>

theorem Create_adds_in_turn:
  "(accepts (AddUserToGroup conn) (d_group d) (world s) (Get_users d) w1 \<longrightarrow>
      resourceAwsIamGroupMembershipCreate conn d s =
        resourceAwsIamGroupMembershipRead conn (d\<lparr>d_Id := d_name d\<rparr>)
          (Env w1 (events s @ map (add_event (d_group d)) (Get_users d)))) \<and>
   (Get_users d = pre @ u # rest \<and>
    accepts (AddUserToGroup conn) (d_group d) (world s) pre w1 \<and>
    AddUserToGroup conn u (d_group d) w1 = (Some e, w2) \<longrightarrow>
      resourceAwsIamGroupMembershipCreate conn d s =
        Some (Return (Some e), d,
              Env w2 (events s @ map (add_event (d_group d)) pre
                        @ [Event (AddUserToGroupCall u (d_group d)) (Some e)])))"
proof (intro conjI impI)
  assume "accepts (AddUserToGroup conn) (d_group d) (world s) (Get_users d) w1"
  then have "addUsersToGroup conn (Get_users d) (d_group d) s =
               (None, Env w1 (events s @ map (add_event (d_group d)) (Get_users d)))"
    by (rule addUsersToGroup_accepts)
  then show "resourceAwsIamGroupMembershipCreate conn d s =
        resourceAwsIamGroupMembershipRead conn (d\<lparr>d_Id := d_name d\<rparr>)
          (Env w1 (events s @ map (add_event (d_group d)) (Get_users d)))"
    by (simp add: Create_unfold)
next
  assume a: "Get_users d = pre @ u # rest \<and>
    accepts (AddUserToGroup conn) (d_group d) (world s) pre w1 \<and>
    AddUserToGroup conn u (d_group d) w1 = (Some e, w2)"
  then have "addUsersToGroup conn (pre @ u # rest) (d_group d) s =
           (Some e, Env (snd (AddUserToGroup conn u (d_group d) w1))
                      (events s @ map (add_event (d_group d)) pre
                         @ [Event (AddUserToGroupCall u (d_group d)) (Some e)]))"
    by (intro addUsersToGroup_fails) simp_all
  with a show "resourceAwsIamGroupMembershipCreate conn d s =
        Some (Return (Some e), d,
              Env w2 (events s @ map (add_event (d_group d)) pre
                        @ [Event (AddUserToGroupCall u (d_group d)) (Some e)]))"
    by (simp add: Create_unfold)
qed

theorem Create_adds_in_turn_witness:
  "resourceAwsIamGroupMembershipCreate (sim 2) (membership None (Some [''bob'', ''alice'']))
     (Env (IamState [''alice'', ''bob''] [(''devs'', [])] []) []) =
   resourceAwsIamGroupMembershipRead (sim 2) (membership None (Some [''bob'', ''alice'']))
     (Env (IamState [''alice'', ''bob''] [(''devs'', [''bob'', ''alice''])] [])
        [Event (AddUserToGroupCall ''bob'' ''devs'') None,
         Event (AddUserToGroupCall ''alice'' ''devs'') None]) \<and>
   resourceAwsIamGroupMembershipCreate (sim 2) (membership None (Some [''bob'', ''ghost'', ''alice'']))
     (Env (IamState [''alice'', ''bob''] [(''devs'', [])] []) []) =
   Some (Return (Some no_such_entity), membership None (Some [''bob'', ''ghost'', ''alice'']),
         Env (IamState [''alice'', ''bob''] [(''devs'', [''bob''])] [])
           [Event (AddUserToGroupCall ''bob'' ''devs'') None,
            Event (AddUserToGroupCall ''ghost'' ''devs'') (Some no_such_entity)])"
  using Create_adds_in_turn [of "sim 2" "membership None (Some [''bob'', ''alice''])"
      "Env (IamState [''alice'', ''bob''] [(''devs'', [])] []) []"
      "IamState [''alice'', ''bob''] [(''devs'', [''bob'', ''alice''])] []"]
    Create_adds_in_turn [of "sim 2" "membership None (Some [''bob'', ''ghost'', ''alice''])"
      "Env (IamState [''alice'', ''bob''] [(''devs'', [])] []) []"
      "IamState [''alice'', ''bob''] [(''devs'', [''bob''])] []"
      "[''bob'']" "''ghost''" "[''alice'']" no_such_entity
      "IamState [''alice'', ''bob''] [(''devs'', [''bob''])] []"]
  by (simp add: sim_def sim_AddUserToGroup_def update_members_def membership_def Get_users_def
        add_event_def no_such_entity_def)

subsection \<open>C7: the members after Create\<close>

text \<open>
  C7 says that, with no interference and no error, Create(G, D) followed by Read yields a
  record whose members are D. Create only adds, and its Read stores what the listing
  returns, so a member the group already had is reported as well. Here the group holds
  zed before alice is added, and the record ends with the members zed and alice, not
  alice alone.
\<close>

theorem Create_reports_earlier_members:
  "resourceAwsIamGroupMembershipCreate (sim 2) (membership None (Some [''alice'']))
     (Env (IamState [''alice'', ''zed''] [(''devs'', [''zed''])] []) []) =
   Some (Return None, membership None (Some [''zed'', ''alice'']),
         Env (IamState [''alice'', ''zed''] [(''devs'', [''zed'', ''alice''])] [])
           [Event (AddUserToGroupCall ''alice'' ''devs'') None,
            Event (GetGroupCall ''devs'' None) None])"
  using sim_Read_single_page [of "[(''devs'', [''zed'', ''alice''])]" "''devs''" "[''zed'', ''alice'']" 2
      "[]" "membership None (Some [''alice''])" "[''alice'', ''zed'']"
      "[Event (AddUserToGroupCall ''alice'' ''devs'') None]"]
  by (simp add: Create_unfold run_defs get_event_def)

text \<open>
  C7 as amended: when no call errs and nothing else changes the group, Create(G, D)
  followed by its Read yields a record whose identity is the configured name and whose
  members are the members G had before together with D; they are D exactly when G had no
  member outside D. Here \<open>mem w\<close> are the members of G in the state \<open>w\<close> of the service:
  an add that succeeds makes the user a member and changes nothing else of the
  membership, and the listing that follows the adds reports the membership of the state
  the adds have left.
\<close>

theorem Create_members_are_earlier_and_desired:
  assumes "accepts (AddUserToGroup conn) (d_group d) (world s) (Get_users d) w1"
    and "\<forall>u w w'. AddUserToGroup conn u (d_group d) w = (None, w') \<longrightarrow>
           mem w' = insert u (mem w)"
    and "serves conn (d_group d) None w1 (ps @ [p]) w2"
    and "list_all (\<lambda>q. IsTruncated q = Some True) ps"
    and "IsTruncated p = Some False"
    and "map page_names (ps @ [p]) = map Some nss"
    and "set (concat nss) = mem w1"
  shows "resourceAwsIamGroupMembershipCreate conn d s =
           Some (Return None, d\<lparr>d_Id := d_name d, d_users := Some (remdups (concat nss))\<rparr>,
                 Env w2 (events s @ map (add_event (d_group d)) (Get_users d)
                           @ map (get_event (d_group d)) (None # map Marker ps))) \<and>
         set (remdups (concat nss)) = mem (world s) \<union> set (Get_users d) \<and>
         (set (remdups (concat nss)) = set (Get_users d) \<longleftrightarrow>
            mem (world s) \<subseteq> set (Get_users d))"
proof -
  let ?s1 = "Env w1 (events s @ map (add_event (d_group d)) (Get_users d))"
  let ?d1 = "d\<lparr>d_Id := d_name d\<rparr>"
  from assms(1) have "addUsersToGroup conn (Get_users d) (d_group d) s = (None, ?s1)"
    by (rule addUsersToGroup_accepts)
  then have "resourceAwsIamGroupMembershipCreate conn d s =
               Read_loop conn ?d1 (d_group d) [] None ?s1"
    by (simp add: Create_unfold resourceAwsIamGroupMembershipRead_def)
  also have "\<dots> = Some (Return None, ?d1\<lparr>d_users := Some (remdups ([] @ concat nss))\<rparr>,
                 Env w2 (events ?s1 @ map (get_event (d_group d)) (None # map Marker ps)))"
    using assms(3-6) by (intro Read_loop_last_page) simp_all
  finally have run: "resourceAwsIamGroupMembershipCreate conn d s =
           Some (Return None, d\<lparr>d_Id := d_name d, d_users := Some (remdups (concat nss))\<rparr>,
                 Env w2 (events s @ map (add_event (d_group d)) (Get_users d)
                           @ map (get_event (d_group d)) (None # map Marker ps)))"
    by simp
  have "mem w1 = mem (world s) \<union> set (Get_users d)"
    using assms(2,1) by (rule accepts_members)
  with assms(7) have members: "set (remdups (concat nss)) = mem (world s) \<union> set (Get_users d)"
    by simp
  then have "set (remdups (concat nss)) = set (Get_users d) \<longleftrightarrow>
               mem (world s) \<subseteq> set (Get_users d)"
    by blast
  with run members show ?thesis by blast
qed

theorem Create_members_are_earlier_and_desired_witness:
  "resourceAwsIamGroupMembershipCreate (sim 2) (membership None (Some [''bob'', ''alice'']))
     (Env (IamState [''alice'', ''bob'', ''zed''] [(''devs'', [''zed''])] []) []) =
   Some (Return None, membership None (Some [''zed'', ''bob'', ''alice'']),
         Env (IamState [''alice'', ''bob'', ''zed''] [(''devs'', [''zed'', ''bob'', ''alice''])] [])
           [Event (AddUserToGroupCall ''bob'' ''devs'') None,
            Event (AddUserToGroupCall ''alice'' ''devs'') None,
            Event (GetGroupCall ''devs'' None) None,
            Event (GetGroupCall ''devs'' (Some ''ii'')) None]) \<and>
   set [''zed'', ''bob'', ''alice''] =
     sim_members ''devs'' (IamState [''alice'', ''bob'', ''zed''] [(''devs'', [''zed''])] [])
       \<union> set [''bob'', ''alice'']"
proof -
  let ?d = "membership None (Some [''bob'', ''alice''])"
  let ?w0 = "IamState [''alice'', ''bob'', ''zed''] [(''devs'', [''zed''])] []"
  let ?w1 = "IamState [''alice'', ''bob'', ''zed''] [(''devs'', [''zed'', ''bob'', ''alice''])] []"
  let ?p1 = "\<lparr>Users = listed [''zed'', ''bob''], IsTruncated = Some True, Marker = Some ''ii''\<rparr>"
  let ?p2 = "\<lparr>Users = listed [''alice''], IsTruncated = Some False, Marker = None\<rparr>"
  have adds: "accepts (AddUserToGroup (sim 2)) (d_group ?d) (world (Env ?w0 [])) (Get_users ?d) ?w1"
    by (simp add: sim_def sim_AddUserToGroup_def update_members_def membership_def Get_users_def)
  have add_sem: "\<forall>u w w'. AddUserToGroup (sim 2) u (d_group ?d) w = (None, w') \<longrightarrow>
           sim_members ''devs'' w' = insert u (sim_members ''devs'' w)"
  proof (intro allI impI)
    fix u w w'
    assume "AddUserToGroup (sim 2) u (d_group ?d) w = (None, w')"
    then have "sim_AddUserToGroup u ''devs'' w = (None, w')"
      by (simp add: sim_def membership_def)
    then show "sim_members ''devs'' w' = insert u (sim_members ''devs'' w)"
      by (rule sim_add_members)
  qed
  have pages: "serves (sim 2) (d_group ?d) None ?w1 ([?p1] @ [?p2]) ?w1"
    by (simp add: sim_def sim_GetGroup_def membership_def eval_nat_numeral)
  have names: "map page_names ([?p1] @ [?p2]) = map Some [[''zed'', ''bob''], [''alice'']]"
    by (simp add: page_names_listed)
  have listing: "set (concat [[''zed'', ''bob''], [''alice'']]) = sim_members ''devs'' ?w1"
    by (simp add: sim_members_def)
  have trunc: "list_all (\<lambda>q. IsTruncated q = Some True) [?p1]" by simp
  have final: "IsTruncated ?p2 = Some False" by simp
  note created = Create_members_are_earlier_and_desired
    [where mem = "sim_members ''devs''", OF adds add_sem pages trunc final names listing]
  have run: "resourceAwsIamGroupMembershipCreate (sim 2) ?d (Env ?w0 []) =
           Some (Return None,
                 ?d\<lparr>d_Id := d_name ?d,
                     d_users := Some (remdups (concat [[''zed'', ''bob''], [''alice'']]))\<rparr>,
                 Env ?w1 (events (Env ?w0 []) @ map (add_event (d_group ?d)) (Get_users ?d)
                           @ map (get_event (d_group ?d)) (None # map Marker [?p1])))"
    using created by (rule conjunct1)
  have members: "set [''zed'', ''bob'', ''alice''] = sim_members ''devs'' ?w0 \<union> set [''bob'', ''alice'']"
    by (simp add: sim_members_def insert_commute)
  have "resourceAwsIamGroupMembershipCreate (sim 2) ?d (Env ?w0 []) =
   Some (Return None, membership None (Some [''zed'', ''bob'', ''alice'']),
         Env ?w1
           [Event (AddUserToGroupCall ''bob'' ''devs'') None,
            Event (AddUserToGroupCall ''alice'' ''devs'') None,
            Event (GetGroupCall ''devs'' None) None,
            Event (GetGroupCall ''devs'' (Some ''ii'')) None])"
    unfolding run
    by (simp add: membership_def Get_users_def add_event_def get_event_def)
  with members show ?thesis by (rule conjI [rotated])
qed

subsection \<open>C8: errors are returned as they are\<close>



subsection \<open>C9: Update without a change of the members\<close>

text \<open>
  C9: when the users of the record have not changed, Update issues no add and no remove
  call: it is Read on the same record, so the only calls are the listing calls of Read,
  and the name, the group and the prior users of the record are as they were.
\<close>

theorem Update_without_change_only_reads:
  assumes "\<not> HasChange_users d"
  shows "resourceAwsIamGroupMembershipUpdate conn d s = resourceAwsIamGroupMembershipRead conn d s \<and>
         (\<forall>out d' s'. resourceAwsIamGroupMembershipRead conn d s = Some (out, d', s') \<longrightarrow>
            (\<exists>evs. events s' = events s @ evs \<and> list_all is_GetGroup evs) \<and>
            d_name d' = d_name d \<and> d_group d' = d_group d \<and>
            d_users_prior d' = d_users_prior d)"
proof (rule conjI)
  show "resourceAwsIamGroupMembershipUpdate conn d s = resourceAwsIamGroupMembershipRead conn d s"
    using assms by (simp add: resourceAwsIamGroupMembershipUpdate_def)
next
  show "\<forall>out d' s'. resourceAwsIamGroupMembershipRead conn d s = Some (out, d', s') \<longrightarrow>
            (\<exists>evs. events s' = events s @ evs \<and> list_all is_GetGroup evs) \<and>
            d_name d' = d_name d \<and> d_group d' = d_group d \<and>
            d_users_prior d' = d_users_prior d"
  proof (intro allI impI)
    fix out d' s'
    assume "resourceAwsIamGroupMembershipRead conn d s = Some (out, d', s')"
    then show "(\<exists>evs. events s' = events s @ evs \<and> list_all is_GetGroup evs) \<and>
            d_name d' = d_name d \<and> d_group d' = d_group d \<and>
            d_users_prior d' = d_users_prior d"
      by (rule Read_frame)
  qed
qed

theorem Update_without_change_only_reads_witness:
  "\<not> HasChange_users (membership (Some [''bob'', ''alice'']) (Some [''bob'', ''alice''])) \<and>
   resourceAwsIamGroupMembershipUpdate (sim 2)
     (membership (Some [''bob'', ''alice'']) (Some [''bob'', ''alice'']))
     (Env (IamState [''alice'', ''bob''] [(''devs'', [''bob'', ''alice''])] []) []) =
   Some (Return None, membership (Some [''bob'', ''alice'']) (Some [''bob'', ''alice'']),
         Env (IamState [''alice'', ''bob''] [(''devs'', [''bob'', ''alice''])] [])
           [Event (GetGroupCall ''devs'' None) None])"
  using Update_without_change_only_reads
      [of "membership (Some [''bob'', ''alice'']) (Some [''bob'', ''alice''])" "sim 2"
          "Env (IamState [''alice'', ''bob''] [(''devs'', [''bob'', ''alice''])] []) []"]
    sim_Read_single_page [of "[(''devs'', [''bob'', ''alice''])]" "''devs''" "[''bob'', ''alice'']" 2 "[]"
      "membership (Some [''bob'', ''alice'']) (Some [''bob'', ''alice''])" "[''alice'', ''bob'']" "[]"]
  by (simp add: membership_def HasChange_users_def GetChange_users_def get_event_def)

subsection \<open>C10: the nil dereferences of Read\<close>

text \<open>
  C10: the dereferences \<^verbatim>\<open>*u.UserName\<close> and \<^verbatim>\<open>*resp.IsTruncated\<close> are guarded in the
  embedding (a nil pointer gives the outcome \<open>Panic\<close>). When every page the client returns
  has its truncation flag and all its user names, Read never panics; when a page it
  receives lacks one of them, Read panics at that page; and when the pages it receives
  are well formed and the listing ends (with an error or a page that is not truncated),
  Read returns.
\<close>

theorem Read_panics_only_on_ill_formed_page:
  "((\<forall>g m w p. fst (GetGroup conn g m w) = Inr p \<longrightarrow> well_formed p) \<longrightarrow>
      resourceAwsIamGroupMembershipRead conn d s \<noteq> Some (Panic, d', s')) \<and>
   (serves conn (d_group d) None (world s) ps w1 \<and>
    list_all (\<lambda>q. IsTruncated q = Some True) ps \<and>
    list_all well_formed ps \<and>
    GetGroup conn (d_group d) (last (None # map Marker ps)) w1 = (Inr p, w2) \<and>
    \<not> well_formed p \<longrightarrow>
      resourceAwsIamGroupMembershipRead conn d s =
        Some (Panic, d,
              Env w2 (events s @ map (get_event (d_group d)) (None # map Marker ps)))) \<and>
   (serves conn (d_group d) None (world s) ps w1 \<and>
    list_all (\<lambda>q. IsTruncated q = Some True) ps \<and>
    list_all well_formed ps \<and>
    (case fst (GetGroup conn (d_group d) (last (None # map Marker ps)) w1) of
       Inl e \<Rightarrow> True
     | Inr q \<Rightarrow> well_formed q \<and> IsTruncated q = Some False) \<longrightarrow>
      (\<exists>r d1 s1. resourceAwsIamGroupMembershipRead conn d s = Some (Return r, d1, s1)))"
proof (intro conjI impI)
  assume wf: "\<forall>g m w p. fst (GetGroup conn g m w) = Inr p \<longrightarrow> well_formed p"
  show "resourceAwsIamGroupMembershipRead conn d s \<noteq> Some (Panic, d', s')"
  proof
    assume "resourceAwsIamGroupMembershipRead conn d s = Some (Panic, d', s')"
    then have "Read_run conn d (d_group d) [] None s (Panic, d', s')"
      unfolding resourceAwsIamGroupMembershipRead_def by (rule Read_loop_cases)
    then obtain ps nss w1 where "serves conn (d_group d) None (world s) ps w1"
      and "Read_final d (d_group d) ([] @ concat nss)
             (fst (GetGroup conn (d_group d) (last (None # map Marker ps)) w1)) = Some (Panic, d')"
      by (rule Read_runE)
    then obtain p where "fst (GetGroup conn (d_group d) (last (None # map Marker ps)) w1) = Inr p"
      and "\<not> well_formed p"
      using Read_final_Panic by blast
    with wf show False by blast
  qed
next
  assume a: "serves conn (d_group d) None (world s) ps w1 \<and>
    list_all (\<lambda>q. IsTruncated q = Some True) ps \<and>
    list_all well_formed ps \<and>
    GetGroup conn (d_group d) (last (None # map Marker ps)) w1 = (Inr p, w2) \<and>
    \<not> well_formed p"
  let ?g = "d_group d"
  let ?m = "last (None # map Marker ps)"
  from a have "\<forall>q \<in> set ps. \<exists>ns. page_names q = Some ns"
    by (auto simp: list_all_iff well_formed_def)
  then obtain f where f: "\<forall>q \<in> set ps. page_names q = Some (f q)" by metis
  then have names: "map page_names ps = map Some (map f ps)" by simp
  have "Read_final d ?g ([] @ concat (map f ps)) (fst (GetGroup conn ?g ?m w1)) = Some (Panic, d)"
    using a by (simp add: Read_final_ill_formed del: last.simps)
  from Read_loop_ends [OF _ _ names this] a
  show "resourceAwsIamGroupMembershipRead conn d s =
        Some (Panic, d, Env w2 (events s @ map (get_event ?g) (None # map Marker ps)))"
    unfolding resourceAwsIamGroupMembershipRead_def
    by (simp add: failure_of_def asked_all del: last.simps butlast.simps)
next
  assume a: "serves conn (d_group d) None (world s) ps w1 \<and>
    list_all (\<lambda>q. IsTruncated q = Some True) ps \<and>
    list_all well_formed ps \<and>
    (case fst (GetGroup conn (d_group d) (last (None # map Marker ps)) w1) of
       Inl e \<Rightarrow> True
     | Inr q \<Rightarrow> well_formed q \<and> IsTruncated q = Some False)"
  let ?g = "d_group d"
  let ?m = "last (None # map Marker ps)"
  from a have "\<forall>q \<in> set ps. \<exists>ns. page_names q = Some ns"
    by (auto simp: list_all_iff well_formed_def)
  then obtain f where f: "\<forall>q \<in> set ps. page_names q = Some (f q)" by metis
  then have names: "map page_names ps = map Some (map f ps)" by simp
  have "\<exists>r d1. Read_final d ?g ([] @ concat (map f ps)) (fst (GetGroup conn ?g ?m w1)) =
                  Some (Return r, d1)"
  proof (cases "fst (GetGroup conn ?g ?m w1)")
    case (Inl e)
    then show ?thesis by (simp only: Read_final_error) (simp split: if_splits)
  next
    case (Inr q)
    with a obtain ns where "IsTruncated q = Some False" and "page_names q = Some ns"
      by (auto simp: well_formed_def simp del: last.simps)
    then have "Read_final d ?g ([] @ concat (map f ps)) (Inr q) =
                 Some (Return None, d\<lparr>d_users := Some (remdups (([] @ concat (map f ps)) @ ns))\<rparr>)"
      by (rule Read_final_last_page)
    with Inr show ?thesis by (simp only:) blast
  qed
  then obtain r d1 where
    "Read_final d ?g ([] @ concat (map f ps)) (fst (GetGroup conn ?g ?m w1)) = Some (Return r, d1)"
    by blast
  from Read_loop_ends [OF _ _ names this] a
  show "\<exists>r d1 s1. resourceAwsIamGroupMembershipRead conn d s = Some (Return r, d1, s1)"
    unfolding resourceAwsIamGroupMembershipRead_def by blast
qed

theorem Read_panics_only_on_ill_formed_page_witness:
  "resourceAwsIamGroupMembershipRead (sim 2) (membership None None)
     (Env (IamState [''alice''] [(''devs'', [''alice''])] []) []) \<noteq>
   Some (Panic, membership None None, Env (IamState [''alice''] [(''devs'', [''alice''])] []) []) \<and>
   resourceAwsIamGroupMembershipRead nameless (membership None None) (Env () []) =
   Some (Panic, membership None None, Env () [Event (GetGroupCall ''devs'' None) None]) \<and>
   (\<exists>r d1 s1. resourceAwsIamGroupMembershipRead (sim 2) (membership None None)
                 (Env (IamState [''alice''] [(''devs'', [''alice''])] []) []) =
               Some (Return r, d1, s1))"
  using Read_panics_only_on_ill_formed_page [of "sim 2" "membership None None"
      "Env (IamState [''alice''] [(''devs'', [''alice''])] []) []"
      "membership None None" "Env (IamState [''alice''] [(''devs'', [''alice''])] []) []"
      "[]" "IamState [''alice''] [(''devs'', [''alice''])] []"
      "\<lparr>Users = [], IsTruncated = None, Marker = None\<rparr>"
      "IamState [''alice''] [(''devs'', [''alice''])] []"]
    Read_panics_only_on_ill_formed_page [of nameless "membership None None" "Env () []"
      "membership None None" "Env () []" "[]" "()"
      "\<lparr>Users = [Some (User None)], IsTruncated = Some False, Marker = None\<rparr>" "()"]
    sim_well_formed [of 2]
  by (simp add: nameless_def membership_def well_formed_def page_names_def get_event_def
        sim_def sim_GetGroup_def append_UserNames_listed)

end
